theory Spec2Isabelle
  imports Complex_Main "HOL-Library.AList"
begin

section \<open>Numbers, JSON values and stored texts\<close>

text \<open>
  The interpolator computes with JavaScript numbers. They are modelled as real numbers
  (no rounding, no infinities); the one special value the code can meet is NaN, which
  \<^verbatim>\<open>parseFloat\<close> returns for a text that does not start with a number.
\<close>

datatype jsnum = Num real | NaN

text \<open>JavaScript values as far as JSON knows them (no \<^verbatim>\<open>undefined\<close>, no functions).\<close>

datatype jsval =
    VNull
  | VBool bool
  | VNum jsnum
  | VStr string
  | VArr "jsval list"
  | VObj "(string \<times> jsval) list"

text \<open>
  The fields of the Redis hash \<^verbatim>\<open>sputnik:state\<close> hold texts. The code writes them with
  \<^verbatim>\<open>JSON.stringify\<close> and \<^verbatim>\<open>Number.prototype.toString\<close> and reads them with
  \<^verbatim>\<open>JSON.parse\<close> and \<^verbatim>\<open>parseFloat\<close>, which belong to the platform and not to the
  repository. A text is therefore represented by what the platform makes of it:
  \<^item> \<open>Json v\<close> is the JSON text of the value \<open>v\<close>: \<^verbatim>\<open>true\<close>, \<^verbatim>\<open>null\<close>, \<^verbatim>\<open>12.5\<close>,
    \<^verbatim>\<open>[0,0,0]\<close>. The decimal text of a finite number is the JSON text of that number.
  \<^item> \<open>Raw s\<close> is the text \<open>s\<close> taken verbatim, for a text that is not JSON and does not
    start with a number: the empty text, \<^verbatim>\<open>abc\<close>, \<^verbatim>\<open>NaN\<close>, a planet label.
\<close>

datatype rtext = Raw string | Json jsval

text \<open>\<^verbatim>\<open>JSON.stringify\<close> writes NaN as \<^verbatim>\<open>null\<close>, at any depth.\<close>

fun json_norm :: "jsval \<Rightarrow> jsval" where
  "json_norm (VNum NaN) = VNull"
| "json_norm (VArr vs) = VArr (map json_norm vs)"
| "json_norm (VObj kvs) = VObj (map (map_prod id json_norm) kvs)"
| "json_norm v = v"

definition JSON_stringify :: "jsval \<Rightarrow> rtext" where
  "JSON_stringify v = Json (json_norm v)"

text \<open>\<^verbatim>\<open>JSON.parse\<close>; \<open>None\<close> is the SyntaxError it throws.\<close>

fun JSON_parse :: "rtext \<Rightarrow> jsval option" where
  "JSON_parse (Raw s) = None"
| "JSON_parse (Json v) = Some (json_norm v)"

fun parseFloat :: "rtext \<Rightarrow> jsnum" where
  "parseFloat (Json (VNum n)) = n"
| "parseFloat t = NaN"

text \<open>\<^verbatim>\<open>n.toString()\<close> of a number.\<close>

fun num_text :: "jsnum \<Rightarrow> rtext" where
  "num_text (Num r) = Json (VNum (Num r))"
| "num_text NaN = Raw ''NaN''"

text \<open>Truthiness of a text (only the empty text is falsy) and of a value.\<close>

fun nonempty :: "rtext \<Rightarrow> bool" where
  "nonempty (Raw s) = (s \<noteq> [])"
| "nonempty (Json v) = True"

fun truthy :: "jsval \<Rightarrow> bool" where
  "truthy VNull = False"
| "truthy (VBool b) = b"
| "truthy (VNum (Num r)) = (r \<noteq> 0)"
| "truthy (VNum NaN) = False"
| "truthy (VStr s) = (s \<noteq> [])"
| "truthy (VArr vs) = True"
| "truthy (VObj kvs) = True"

text \<open>Comparison, subtraction and \<^verbatim>\<open>Math.max(0, _)\<close> on a number that may be NaN.\<close>

fun js_le0 :: "jsnum \<Rightarrow> bool" where
  "js_le0 (Num r) = (r \<le> 0)"
| "js_le0 NaN = False"

fun js_sub :: "jsnum \<Rightarrow> real \<Rightarrow> jsnum" where
  "js_sub (Num r) c = Num (r - c)"
| "js_sub NaN c = NaN"

fun js_max0 :: "jsnum \<Rightarrow> jsnum" where
  "js_max0 (Num r) = Num (max 0 r)"
| "js_max0 NaN = NaN"

section \<open>Constants and vectors\<close>

text \<open>
  \<^verbatim>\<open>MOVEMENT_SPEED\<close> and \<^verbatim>\<open>FUEL_CONSUMPTION_RATE\<close> are read from the environment
  (defaults 24.33 and 0.01); the other two constants are fixed.
\<close>

record config =
  MOVEMENT_SPEED :: real
  FUEL_CONSUMPTION_RATE :: real

definition default_config :: config where
  "default_config = \<lparr>MOVEMENT_SPEED = 2433 / 100, FUEL_CONSUMPTION_RATE = 1 / 100\<rparr>"

definition ARRIVAL_THRESHOLD :: real where
  "ARRIVAL_THRESHOLD = 10"

definition UPDATE_INTERVAL :: real where
  "UPDATE_INTERVAL = 50"

datatype Vector3 = V3 (vx: real) (vy: real) (vz: real)

definition normalizeVector :: "Vector3 \<Rightarrow> Vector3" where
  "normalizeVector v =
     (let length = sqrt (vx v * vx v + vy v * vy v + vz v * vz v)
      in if length = 0 then V3 0 0 0
         else V3 (vx v / length) (vy v / length) (vz v / length))"

definition calculateDistance :: "Vector3 \<Rightarrow> Vector3 \<Rightarrow> real" where
  "calculateDistance a b =
     sqrt ((vx b - vx a)\<^sup>2 + (vy b - vy a)\<^sup>2 + (vz b - vz a)\<^sup>2)"

text \<open>The vector from \<open>a\<close> to \<open>b\<close>, and the point \<open>p + t * d\<close>.\<close>

definition towards :: "Vector3 \<Rightarrow> Vector3 \<Rightarrow> Vector3" where
  "towards a b = V3 (vx b - vx a) (vy b - vy a) (vz b - vz a)"

definition advance :: "Vector3 \<Rightarrow> Vector3 \<Rightarrow> real \<Rightarrow> Vector3" where
  "advance p d t = V3 (vx p + vx d * t) (vy p + vy d * t) (vz p + vz d * t)"

definition vecArray :: "Vector3 \<Rightarrow> jsval" where
  "vecArray v = VArr [VNum (Num (vx v)), VNum (Num (vy v)), VNum (Num (vz v))]"

section \<open>The interpolator and the store\<close>

type_synonym hash = "(string \<times> rtext) list"

definition hGet :: "hash \<Rightarrow> string \<Rightarrow> rtext option" where
  "hGet h k = map_of h k"

text \<open>\<^verbatim>\<open>HSET\<close> sets the given fields and leaves every other field of the hash alone.\<close>

fun hSet :: "hash \<Rightarrow> (string \<times> rtext) list \<Rightarrow> hash" where
  "hSet h [] = h"
| "hSet h ((k, t) # kts) = hSet (AList.update k t h) kts"

datatype event =
    FuelUpdate jsnum
  | FuelDepleted Vector3 int
  | Arrival Vector3 jsnum int

datatype command = MoveTo Vector3 | Stop | Malformed

text \<open>
  The fields of \<^verbatim>\<open>SpaceshipInterpolator\<close>, the hash \<^verbatim>\<open>sputnik:state\<close>, what has been
  published on \<^verbatim>\<open>sputnik:events\<close> and \<^verbatim>\<open>sputnik:commands\<close> (oldest first), and the number
  of pending one-second timers that will clear \<open>isNotifyingArrival\<close>. \<open>intervalId\<close> is
  \<open>True\<close> while a timer handle is stored. Store and publish calls are taken to succeed.
\<close>

record interp =
  isRunning :: bool
  intervalId :: bool
  currentPosition :: Vector3
  destination :: "Vector3 option"
  isNotifyingArrival :: bool
  redis :: hash
  events :: "event list"
  commandsOut :: "(Vector3 \<times> jsnum) list"
  pendingResets :: nat

definition startInterpolation :: "interp \<Rightarrow> interp" where
  "startInterpolation s =
     (if isRunning s then s
      else s\<lparr>isRunning := True, isNotifyingArrival := False, intervalId := True\<rparr>)"

definition getCurrentFuel :: "interp \<Rightarrow> jsnum" where
  "getCurrentFuel s =
     (case hGet (redis s) ''fuel'' of
        None \<Rightarrow> Num 100
      | Some fuelStr \<Rightarrow> if nonempty fuelStr then parseFloat fuelStr else Num 100)"

definition updateFuel :: "jsnum \<Rightarrow> interp \<Rightarrow> interp" where
  "updateFuel newFuel s =
     s\<lparr>redis := hSet (redis s) [(''fuel'', num_text newFuel)],
       events := events s @ [FuelUpdate newFuel]\<rparr>"

definition calculateVelocity :: "config \<Rightarrow> interp \<Rightarrow> Vector3" where
  "calculateVelocity c s =
     (case destination s of
        None \<Rightarrow> V3 0 0 0
      | Some d \<Rightarrow>
          (let direction = normalizeVector (towards (currentPosition s) d)
           in V3 (vx direction * MOVEMENT_SPEED c) (vy direction * MOVEMENT_SPEED c)
                 (vz direction * MOVEMENT_SPEED c)))"

text \<open>
  \<open>now\<close> is the reading of \<^verbatim>\<open>Date.now()\<close>; one reading serves a whole tick or
  command.
\<close>

definition updateRedisPosition :: "config \<Rightarrow> int \<Rightarrow> interp \<Rightarrow> interp" where
  "updateRedisPosition c now s =
     (let position = vecArray (currentPosition s);
          velocity = (if destination s \<noteq> None then vecArray (calculateVelocity c s)
                      else vecArray (V3 0 0 0));
          currentFuel = getCurrentFuel s
      in s\<lparr>redis := hSet (redis s)
           [(''position'', JSON_stringify position),
            (''velocity'', JSON_stringify velocity),
            (''destination'',
               (case destination s of
                  Some d \<Rightarrow> JSON_stringify (vecArray d)
                | None \<Rightarrow> Raw [])),
            (''timestamp'', num_text (Num (real_of_int now))),
            (''isMoving'', Json (VBool (isRunning s))),
            (''fuel'', num_text currentFuel)]\<rparr>)"

definition stopInterpolation :: "config \<Rightarrow> int \<Rightarrow> interp \<Rightarrow> interp" where
  "stopInterpolation c now s =
     (if \<not> isRunning s then s
      else
        (let s1 = s\<lparr>isRunning := False, intervalId := False\<rparr>;
             s2 = updateRedisPosition c now s1
         in s2\<lparr>redis := hSet (redis s2) [(''isMoving'', Json (VBool False))]\<rparr>))"

text \<open>
  \<^verbatim>\<open>updateState\<close>: the entries of \<open>updates\<close> in order, then the timestamp, written with
  one \<^verbatim>\<open>HSET\<close>. A string value is stored verbatim; it is taken to be a label, that is,
  a text that is not itself JSON.
\<close>

definition encodeField :: "string \<Rightarrow> jsval \<Rightarrow> rtext" where
  "encodeField key val =
     (if key = ''position'' \<or> key = ''velocity'' \<or> key = ''destination''
      then JSON_stringify val
      else
        (case val of
           VNum n \<Rightarrow> num_text n
         | VStr str \<Rightarrow> Raw str
         | VNull \<Rightarrow> Raw []
         | _ \<Rightarrow> JSON_stringify val))"

fun updateData :: "(string \<times> jsval) list \<Rightarrow> hash \<Rightarrow> hash" where
  "updateData [] acc = acc"
| "updateData ((key, val) # rest) acc =
     updateData rest (AList.update key (encodeField key val) acc)"

definition updateState :: "int \<Rightarrow> (string \<times> jsval) list \<Rightarrow> interp \<Rightarrow> interp \<times> bool" where
  "updateState now updates s =
     (let d = updateData updates [];
          d' = AList.update ''timestamp'' (num_text (Num (real_of_int now))) d
      in (s\<lparr>redis := hSet (redis s) d'\<rparr>, True))"

definition notifyArrival :: "int \<Rightarrow> Vector3 \<Rightarrow> interp \<Rightarrow> interp" where
  "notifyArrival now position s =
     (if isNotifyingArrival s then s
      else
        (let s1 = s\<lparr>isNotifyingArrival := True\<rparr>;
             positionArray = vecArray position;
             currentFuel = getCurrentFuel s1;
             s2 = s1\<lparr>events := events s1 @ [Arrival position currentFuel now]\<rparr>;
             s3 = fst (updateState now
                    [(''position'', positionArray),
                     (''velocity'', vecArray (V3 0 0 0)),
                     (''destination'', VNull),
                     (''isMoving'', VBool False),
                     (''fuel'', VNum currentFuel)] s2)
         in s3\<lparr>pendingResets := Suc (pendingResets s3)\<rparr>))"

text \<open>The timer callback that \<^verbatim>\<open>notifyArrival\<close> schedules, 1000 ms later.\<close>

definition coolDownExpired :: "interp \<Rightarrow> interp" where
  "coolDownExpired s =
     (if pendingResets s = 0 then s
      else s\<lparr>isNotifyingArrival := False, pendingResets := pendingResets s - 1\<rparr>)"

section \<open>The tick\<close>

text \<open>
  The last part of \<^verbatim>\<open>updatePosition\<close>, once the fuel for the tick has been deducted:
  arrive, or move towards the destination.
\<close>

definition arriveOrMove ::
  "config \<Rightarrow> int \<Rightarrow> Vector3 \<Rightarrow> Vector3 \<Rightarrow> real \<Rightarrow> real \<Rightarrow> interp \<Rightarrow> interp" where
  "arriveOrMove c now dest direction distance moveDistance s =
     (if distance \<le> ARRIVAL_THRESHOLD then
        (let s1 = s\<lparr>currentPosition := dest\<rparr>;
             arrivalPosition = currentPosition s1;
             s2 = stopInterpolation c now s1;
             s3 = s2\<lparr>destination := None\<rparr>;
             s4 = s3\<lparr>redis := hSet (redis s3) [(''destination'', Raw [])]\<rparr>
         in notifyArrival now arrivalPosition s4)
      else
        (let movementThisFrame = min moveDistance distance;
             s1 = s\<lparr>currentPosition := advance (currentPosition s) direction movementThisFrame\<rparr>
         in updateRedisPosition c now s1))"

text \<open>
  \<^verbatim>\<open>updatePosition\<close>, one tick. The branch that empties the tank is entered only
  with a number for the fuel, since both comparisons are false for NaN; the case for NaN
  in that branch is there to make the case distinction complete and is never taken.
\<close>

definition updatePosition :: "config \<Rightarrow> int \<Rightarrow> interp \<Rightarrow> interp" where
  "updatePosition c now s =
     (case destination s of
        None \<Rightarrow> s
      | Some dest \<Rightarrow>
          if \<not> isRunning s then s
          else
            (let direction = normalizeVector (towards (currentPosition s) dest);
                 distance = calculateDistance (currentPosition s) dest;
                 deltaTime = UPDATE_INTERVAL / 1000;
                 moveDistance = MOVEMENT_SPEED c * deltaTime;
                 currentFuel = getCurrentFuel s;
                 fuelConsumed = moveDistance * FUEL_CONSUMPTION_RATE c
             in if js_le0 currentFuel then
                  stopInterpolation c now (s\<lparr>destination := None\<rparr>)
                else if js_le0 (js_sub currentFuel fuelConsumed) then
                  (case currentFuel of
                     NaN \<Rightarrow> s
                   | Num fuel \<Rightarrow>
                      (let s1 = updateFuel (Num 0) s;
                           possibleDistance = fuel / FUEL_CONSUMPTION_RATE c;
                           s2 = s1\<lparr>currentPosition :=
                                  advance (currentPosition s1) direction possibleDistance\<rparr>;
                           s3 = updateRedisPosition c now s2;
                           s4 = s3\<lparr>events := events s3 @ [FuelDepleted (currentPosition s3) now]\<rparr>;
                           s5 = s4\<lparr>destination := None\<rparr>
                       in stopInterpolation c now s5))
                else
                  arriveOrMove c now dest direction distance moveDistance
                    (updateFuel (js_max0 (js_sub currentFuel fuelConsumed)) s)))"

section \<open>Reading and the control API\<close>

text \<open>What \<^verbatim>\<open>getState\<close> returns.\<close>

record state_view =
  st_position :: jsval
  st_velocity :: jsval
  st_destination :: jsval
  st_fuel :: jsnum
  st_target_planet_id :: "rtext option"
  st_isMoving :: bool

text \<open>
  The decoding of \<open>position\<close> and of \<open>velocity\<close>: a missing or empty field, a text that
  \<^verbatim>\<open>JSON.parse\<close> rejects, a falsy value and a value without \<^verbatim>\<open>map\<close> (the TypeError is
  caught) all give \<^verbatim>\<open>[0, 0, 0]\<close>; an array has its \<^verbatim>\<open>null\<close> elements replaced by 0.
\<close>

definition readVector :: "rtext option \<Rightarrow> jsval" where
  "readVector field =
     (case field of
        None \<Rightarrow> vecArray (V3 0 0 0)
      | Some t \<Rightarrow>
          if \<not> nonempty t then vecArray (V3 0 0 0)
          else
            (case JSON_parse t of
               None \<Rightarrow> vecArray (V3 0 0 0)
             | Some v \<Rightarrow>
                 if truthy v then
                   (case v of
                      VArr vals \<Rightarrow> VArr (map (\<lambda>val. if val = VNull then VNum (Num 0) else val) vals)
                    | _ \<Rightarrow> vecArray (V3 0 0 0))
                 else vecArray (V3 0 0 0)))"

definition readDestination :: "rtext option \<Rightarrow> jsval" where
  "readDestination field =
     (case field of
        None \<Rightarrow> VNull
      | Some t \<Rightarrow>
          if nonempty t then
            (case JSON_parse t of None \<Rightarrow> VNull | Some v \<Rightarrow> v)
          else VNull)"

definition getState :: "interp \<Rightarrow> state_view option" where
  "getState s =
     (let stateData = redis s
      in if stateData = [] then None
         else Some
           \<lparr>st_position = readVector (hGet stateData ''position''),
            st_velocity = readVector (hGet stateData ''velocity''),
            st_destination = readDestination (hGet stateData ''destination''),
            st_fuel =
              (case hGet stateData ''fuel'' of
                 None \<Rightarrow> Num 100
               | Some t \<Rightarrow> if nonempty t then parseFloat t else Num 100),
            st_target_planet_id =
              (case hGet stateData ''target_planet_id'' of
                 None \<Rightarrow> None
               | Some t \<Rightarrow> if nonempty t then Some t else None),
            st_isMoving = (hGet stateData ''isMoving'' = Some (Json (VBool True)))\<rparr>)"

definition setDestination :: "Vector3 \<Rightarrow> interp \<Rightarrow> interp \<times> bool" where
  "setDestination d s =
     (let s1 = s\<lparr>destination := Some d\<rparr>;
          currentFuel = getCurrentFuel s1;
          s2 = s1\<lparr>redis := hSet (redis s1)
                 [(''destination'', JSON_stringify (vecArray d)),
                  (''isMoving'', Json (VBool True)),
                  (''fuel'', num_text currentFuel)]\<rparr>;
          s3 = startInterpolation s2;
          s4 = s3\<lparr>commandsOut := commandsOut s3 @ [(d, currentFuel)]\<rparr>
      in (s4, True))"

text \<open>The subscriber callback on \<^verbatim>\<open>sputnik:commands\<close>.\<close>

definition handleCommand :: "config \<Rightarrow> int \<Rightarrow> command \<Rightarrow> interp \<Rightarrow> interp" where
  "handleCommand c now cmd s =
     (case cmd of
        MoveTo d \<Rightarrow>
          (let s1 = s\<lparr>destination := Some d\<rparr>
           in if \<not> isRunning s1 then startInterpolation s1 else s1)
      | Stop \<Rightarrow> stopInterpolation c now (s\<lparr>destination := None\<rparr>)
      | Malformed \<Rightarrow> s)"

section \<open>Initialization and runs\<close>

text \<open>
  \<^verbatim>\<open>arr[i] || 0\<close>: element \<open>i\<close> of an array, character \<open>i\<close> of a string, the property
  named \<open>i\<close> of an object (only the indices 0, 1 and 2 are read); a missing or falsy
  element gives 0. The positions of the model are numbers, so a truthy element that is not
  a number has no counterpart: \<open>None\<close>.
\<close>

fun element :: "jsval \<Rightarrow> nat \<Rightarrow> jsval option" where
  "element (VArr vs) i = (if i < length vs then Some (vs ! i) else None)"
| "element (VStr str) i = (if i < length str then Some (VStr [str ! i]) else None)"
| "element (VObj kvs) i = map_of kvs (if i = 0 then ''0'' else if i = 1 then ''1'' else ''2'')"
| "element v i = None"

fun orZero :: "jsval option \<Rightarrow> real option" where
  "orZero None = Some 0"
| "orZero (Some (VNum (Num r))) = Some r"
| "orZero (Some v) = (if truthy v then None else Some 0)"

definition arrayToVector3 :: "jsval \<Rightarrow> Vector3 option" where
  "arrayToVector3 arr =
     (case (orZero (element arr 0), orZero (element arr 1), orZero (element arr 2)) of
        (Some a, Some b, Some c) \<Rightarrow> Some (V3 a b c)
      | _ \<Rightarrow> None)"

text \<open>The object as the constructor and the field initialisers leave it, over an empty store.\<close>

definition fresh :: interp where
  "fresh =
     \<lparr>isRunning = False, intervalId = False, currentPosition = V3 0 0 0, destination = None,
      isNotifyingArrival = False, redis = [], events = [], commandsOut = [],
      pendingResets = 0\<rparr>"

text \<open>
  \<^verbatim>\<open>initialize\<close>: hydrate from the persisted record when there is one, write the
  defaults otherwise, then write the position. \<open>None\<close> only when the record holds a
  coordinate that is not a number.
\<close>

definition initialize :: "config \<Rightarrow> int \<Rightarrow> interp \<Rightarrow> interp option" where
  "initialize c now s =
     (case getState s of
        Some state \<Rightarrow>
          (case (if truthy (st_position state) then arrayToVector3 (st_position state)
                 else Some (currentPosition s)) of
             None \<Rightarrow> None
           | Some p \<Rightarrow>
               (let s1 = s\<lparr>currentPosition := p\<rparr>
                in if truthy (st_destination state) then
                     (case arrayToVector3 (st_destination state) of
                        None \<Rightarrow> None
                      | Some d \<Rightarrow>
                          Some (updateRedisPosition c now
                                  (startInterpolation (s1\<lparr>destination := Some d\<rparr>))))
                   else Some (updateRedisPosition c now s1)))
      | None \<Rightarrow>
          Some (updateRedisPosition c now
                  (fst (updateState now
                     [(''position'', vecArray (V3 0 0 0)),
                      (''velocity'', vecArray (V3 0 0 0)),
                      (''fuel'', VNum (Num 100))] s))))"

text \<open>
  What can happen to an initialized interpolator: the timer fires, a command arrives on
  the channel, the control API sets a destination, an arrival cool-down ends. Each of them
  runs to its end before the next begins: ticks do not overlap.
\<close>

datatype action = Tick int | Command command int | SetDestination Vector3 | CoolDown

fun step :: "config \<Rightarrow> interp \<Rightarrow> action \<Rightarrow> interp" where
  "step c s (Tick now) = updatePosition c now s"
| "step c s (Command cmd now) = handleCommand c now cmd s"
| "step c s (SetDestination d) = fst (setDestination d s)"
| "step c s CoolDown = coolDownExpired s"

definition run :: "config \<Rightarrow> action list \<Rightarrow> interp \<Rightarrow> interp" where
  "run c acts s = foldl (step c) s acts"

definition ticks :: "config \<Rightarrow> int list \<Rightarrow> interp \<Rightarrow> interp" where
  "ticks c nows s = foldl (\<lambda>s now. updatePosition c now s) s nows"

section \<open>Vocabulary of the properties\<close>

text \<open>The candidate travel distance of a tick and the fuel it would draw.\<close>

definition moveDistance :: "config \<Rightarrow> real" where
  "moveDistance c = MOVEMENT_SPEED c * (UPDATE_INTERVAL / 1000)"

definition fuelConsumed :: "config \<Rightarrow> real" where
  "fuelConsumed c = moveDistance c * FUEL_CONSUMPTION_RATE c"

text \<open>The unit vector towards the destination and the distance left (0 without one).\<close>

definition heading :: "interp \<Rightarrow> Vector3" where
  "heading s =
     (case destination s of
        None \<Rightarrow> V3 0 0 0
      | Some d \<Rightarrow> normalizeVector (towards (currentPosition s) d))"

definition remaining :: "interp \<Rightarrow> real" where
  "remaining s =
     (case destination s of
        None \<Rightarrow> 0
      | Some d \<Rightarrow> calculateDistance (currentPosition s) d)"

text \<open>The Euclidean length of a vector.\<close>

definition norm3 :: "Vector3 \<Rightarrow> real" where
  "norm3 v = sqrt (vx v * vx v + vy v * vy v + vz v * vz v)"

text \<open>A fuel level within the range the data model gives it.\<close>

fun fuel_in_range :: "jsnum \<Rightarrow> bool" where
  "fuel_in_range (Num r) = (0 \<le> r \<and> r \<le> 100)"
| "fuel_in_range NaN = False"

text \<open>The tick passes both fuel checks: the fuel is not used up and the draw leaves some.\<close>

definition fuel_suffices :: "config \<Rightarrow> interp \<Rightarrow> bool" where
  "fuel_suffices c s =
     (\<not> js_le0 (getCurrentFuel s) \<and> \<not> js_le0 (js_sub (getCurrentFuel s) (fuelConsumed c)))"

text \<open>The fuel after a tick that passed both checks.\<close>

definition fuel_after :: "config \<Rightarrow> interp \<Rightarrow> jsnum" where
  "fuel_after c s = js_max0 (js_sub (getCurrentFuel s) (fuelConsumed c))"


text \<open>
  A run of move ticks: before each tick a destination is set, the loop runs, the fuel
  passes both checks and the remaining distance is above the arrival threshold, so that no
  tick of the run is an arrival or a depletion.
\<close>

fun movingRun :: "config \<Rightarrow> int list \<Rightarrow> interp \<Rightarrow> bool" where
  "movingRun c [] s = True"
| "movingRun c (now # nows) s =
     (destination s \<noteq> None \<and> isRunning s \<and> fuel_suffices c s
      \<and> ARRIVAL_THRESHOLD < remaining s
      \<and> movingRun c nows (updatePosition c now s))"

text \<open>
  A run of ticks in steady state: a run of move ticks in which the remaining distance is
  still above the threshold after each tick.
\<close>

fun steadyRun :: "config \<Rightarrow> int list \<Rightarrow> interp \<Rightarrow> bool" where
  "steadyRun c [] s = True"
| "steadyRun c (now # nows) s =
     (destination s \<noteq> None \<and> isRunning s \<and> fuel_suffices c s
      \<and> ARRIVAL_THRESHOLD < remaining s
      \<and> ARRIVAL_THRESHOLD < remaining (updatePosition c now s)
      \<and> steadyRun c nows (updatePosition c now s))"

text \<open>The timestamp the store holds (NaN when there is none).\<close>

definition timestampOf :: "interp \<Rightarrow> jsnum" where
  "timestampOf s =
     (case hGet (redis s) ''timestamp'' of None \<Rightarrow> NaN | Some t \<Rightarrow> parseFloat t)"

text \<open>
  A field that is missing or empty; a field whose text \<^verbatim>\<open>JSON.parse\<close> rejects; a field
  whose text is JSON but not an array.
\<close>

fun is_array :: "jsval \<Rightarrow> bool" where
  "is_array (VArr vals) = True"
| "is_array v = False"

definition absent :: "rtext option \<Rightarrow> bool" where
  "absent field = (case field of None \<Rightarrow> True | Some t \<Rightarrow> \<not> nonempty t)"

definition unparsable :: "rtext option \<Rightarrow> bool" where
  "unparsable field = (case field of None \<Rightarrow> False | Some t \<Rightarrow> nonempty t \<and> JSON_parse t = None)"

definition not_an_array :: "rtext option \<Rightarrow> bool" where
  "not_an_array field =
     (case field of
        None \<Rightarrow> False
      | Some t \<Rightarrow> (case JSON_parse t of None \<Rightarrow> False | Some v \<Rightarrow> \<not> is_array v))"

section \<open>Example states\<close>

text \<open>A ship at the origin sent to (100, 0, 0) with 0.01 units of fuel in the store.\<close>

definition low_fuel_transit :: interp where
  "low_fuel_transit =
     fst (setDestination (V3 100 0 0)
            (fresh\<lparr>redis := [(''fuel'', Json (VNum (Num (1 / 100))))]\<rparr>))"

text \<open>An idle ship whose stored fuel is 0.\<close>

definition empty_tank :: interp where
  "empty_tank = fresh\<lparr>redis := [(''fuel'', Json (VNum (Num 0)))]\<rparr>"

text \<open>An idle ship over a record whose fuel field holds 250.\<close>

definition overfull :: interp where
  "overfull = fresh\<lparr>redis := [(''fuel'', Json (VNum (Num 250)))]\<rparr>"



text \<open>An idle ship over a record that holds a timestamp only.\<close>

definition stamped :: interp where
  "stamped = fresh\<lparr>redis := [(''timestamp'', Json (VNum (Num 1000)))]\<rparr>"

text \<open>Idle ships over damaged records.\<close>

definition garbled :: interp where
  "garbled =
     fresh\<lparr>redis :=
       [(''position'', Raw ''north''), (''velocity'', Json (VNum (Num 7))),
        (''destination'', Raw []), (''fuel'', Raw []), (''isMoving'', Raw ''yes'')]\<rparr>"

definition garbled_fuel :: interp where
  "garbled_fuel = fresh\<lparr>redis := [(''fuel'', Raw ''abc'')]\<rparr>"

text \<open>A ship at the origin sent to (100, 0, 0) over an empty store (fuel reads 100).\<close>

definition cruise :: interp where
  "cruise = fst (setDestination (V3 100 0 0) fresh)"

text \<open>A ship at the origin sent to (11, 0, 0), one unit outside the arrival threshold.\<close>

definition approach :: interp where
  "approach = fst (setDestination (V3 11 0 0) fresh)"

text \<open>
  A fast ship: at 1000 units per second a tick covers 50 units, more than the arrival
  threshold. It is sent from the origin to (20, 0, 0).
\<close>

definition fast_config :: config where
  "fast_config = \<lparr>MOVEMENT_SPEED = 1000, FUEL_CONSUMPTION_RATE = 1 / 100\<rparr>"

definition fast_hop :: interp where
  "fast_hop = fst (setDestination (V3 20 0 0) fresh)"

section \<open>The store\<close>

lemma hGet_update: "hGet (AList.update k t h) k' = (if k' = k then Some t else hGet h k')"
  by (simp add: hGet_def update_conv')

lemma hGet_hSet:
  "hGet (hSet h kts) k =
     (case map_of (rev kts) k of Some t \<Rightarrow> Some t | None \<Rightarrow> hGet h k)"
proof (induction kts arbitrary: h)
  case Nil
  then show ?case by simp
next
  case (Cons a kts)
  obtain k' t' where a: "a = (k', t')" by (cases a)
  show ?case
    by (simp add: a Cons hGet_update map_add_def split: option.splits)
qed

lemma map_of_rev_distinct:
  "distinct (map fst xs) \<Longrightarrow> map_of (rev xs) k = map_of xs k"
proof (induction xs)
  case Nil
  then show ?case by simp
next
  case (Cons a xs)
  obtain k' v' where a: "a = (k', v')" by (cases a)
  have "k' \<notin> fst ` set xs" using Cons.prems by (simp add: a)
  then have n: "map_of (rev xs) k' = None"
    by (simp add: map_of_eq_None_iff)
  show ?case
    using Cons n by (auto simp: a map_add_def split: option.splits)
qed

lemma hGet_hSet_distinct:
  assumes "distinct (map fst kts)"
  shows "hGet (hSet h kts) k = (case hGet kts k of Some t \<Rightarrow> Some t | None \<Rightarrow> hGet h k)"
  using map_of_rev_distinct[OF assms, of k] by (simp add: hGet_hSet) (simp add: hGet_def)

lemma read_num_text: "nonempty (num_text n) \<and> parseFloat (num_text n) = n"
  by (cases n) simp_all

lemma hGet_updateData:
  "hGet (updateData ups acc) k =
     (case map_of (rev ups) k of Some v \<Rightarrow> Some (encodeField k v) | None \<Rightarrow> hGet acc k)"
proof (induction ups arbitrary: acc)
  case Nil
  then show ?case by simp
next
  case (Cons a ups)
  obtain k' v' where a: "a = (k', v')" by (cases a)
  show ?case
    by (simp add: a Cons hGet_update map_add_def split: option.splits)
qed

lemma distinct_updateData:
  "distinct (map fst acc) \<Longrightarrow> distinct (map fst (updateData ups acc))"
proof (induction ups arbitrary: acc)
  case Nil
  then show ?case by simp
next
  case (Cons a ups)
  obtain k' v' where a: "a = (k', v')" by (cases a)
  show ?case
    using Cons.IH[of "AList.update k' (encodeField k' v') acc"] Cons.prems
    by (simp add: a distinct_update)
qed

lemma hGet_updateState:
  "hGet (redis (fst (updateState now ups s))) k =
     (if k = ''timestamp'' then Some (num_text (Num (real_of_int now)))
      else case map_of (rev ups) k of
             Some v \<Rightarrow> Some (encodeField k v)
           | None \<Rightarrow> hGet (redis s) k)"
proof -
  have d: "distinct (map fst (AList.update ''timestamp'' (num_text (Num (real_of_int now)))
               (updateData ups [])))"
    by (intro distinct_update distinct_updateData) simp
  show ?thesis
    by (simp add: updateState_def Let_def hGet_hSet_distinct[OF d] hGet_update hGet_updateData
          del: num_text.simps)
       (simp add: hGet_def split: option.splits)
qed

section \<open>What each operation touches\<close>

lemma urp_fields:
  "isRunning (updateRedisPosition c now s) = isRunning s"
  "destination (updateRedisPosition c now s) = destination s"
  "currentPosition (updateRedisPosition c now s) = currentPosition s"
  "events (updateRedisPosition c now s) = events s"
  "commandsOut (updateRedisPosition c now s) = commandsOut s"
  "isNotifyingArrival (updateRedisPosition c now s) = isNotifyingArrival s"
  "pendingResets (updateRedisPosition c now s) = pendingResets s"
  "intervalId (updateRedisPosition c now s) = intervalId s"
  by (simp_all add: updateRedisPosition_def Let_def)

lemma updateFuel_fields:
  "isRunning (updateFuel n s) = isRunning s"
  "intervalId (updateFuel n s) = intervalId s"
  "destination (updateFuel n s) = destination s"
  "currentPosition (updateFuel n s) = currentPosition s"
  "commandsOut (updateFuel n s) = commandsOut s"
  "isNotifyingArrival (updateFuel n s) = isNotifyingArrival s"
  "pendingResets (updateFuel n s) = pendingResets s"
  "events (updateFuel n s) = events s @ [FuelUpdate n]"
  by (simp_all add: updateFuel_def)

lemma updateState_fields:
  "snd (updateState now ups s) = True"
  "isRunning (fst (updateState now ups s)) = isRunning s"
  "intervalId (fst (updateState now ups s)) = intervalId s"
  "destination (fst (updateState now ups s)) = destination s"
  "currentPosition (fst (updateState now ups s)) = currentPosition s"
  "events (fst (updateState now ups s)) = events s"
  "commandsOut (fst (updateState now ups s)) = commandsOut s"
  "isNotifyingArrival (fst (updateState now ups s)) = isNotifyingArrival s"
  "pendingResets (fst (updateState now ups s)) = pendingResets s"
  by (simp_all add: updateState_def Let_def)

lemma stop_fields:
  "isRunning (stopInterpolation c now s) = False"
  "destination (stopInterpolation c now s) = destination s"
  "currentPosition (stopInterpolation c now s) = currentPosition s"
  "events (stopInterpolation c now s) = events s"
  "commandsOut (stopInterpolation c now s) = commandsOut s"
  "isNotifyingArrival (stopInterpolation c now s) = isNotifyingArrival s"
  "pendingResets (stopInterpolation c now s) = pendingResets s"
  "getCurrentFuel (stopInterpolation c now s) = getCurrentFuel s"
  by (simp_all add: stopInterpolation_def Let_def updateRedisPosition_def getCurrentFuel_def
      hGet_update read_num_text split: option.splits)

lemma stop_stopped: "\<not> isRunning s \<Longrightarrow> stopInterpolation c now s = s"
  by (simp add: stopInterpolation_def)

lemma stop_running_store:
  "isRunning s \<Longrightarrow>
     intervalId (stopInterpolation c now s) = False \<and>
     hGet (redis (stopInterpolation c now s)) ''isMoving'' = Some (Json (VBool False))"
  by (simp add: stopInterpolation_def Let_def updateRedisPosition_def hGet_update)

lemma setDestination_fields:
  "snd (setDestination d s) = True"
  "destination (fst (setDestination d s)) = Some d"
  "isRunning (fst (setDestination d s)) = True"
  "intervalId (fst (setDestination d s)) = (if isRunning s then intervalId s else True)"
  "currentPosition (fst (setDestination d s)) = currentPosition s"
  "events (fst (setDestination d s)) = events s"
  "commandsOut (fst (setDestination d s)) = commandsOut s @ [(d, getCurrentFuel s)]"
  "getCurrentFuel (fst (setDestination d s)) = getCurrentFuel s"
  "redis (fst (setDestination d s)) =
     hSet (redis s) [(''destination'', Json (vecArray d)), (''isMoving'', Json (VBool True)),
                     (''fuel'', num_text (getCurrentFuel s))]"
  by (simp_all add: setDestination_def Let_def startInterpolation_def getCurrentFuel_def
        hGet_update read_num_text JSON_stringify_def vecArray_def split: option.splits)


lemma notify_fields:
  "isRunning (notifyArrival now p s) = isRunning s"
  "intervalId (notifyArrival now p s) = intervalId s"
  "destination (notifyArrival now p s) = destination s"
  "currentPosition (notifyArrival now p s) = currentPosition s"
  "commandsOut (notifyArrival now p s) = commandsOut s"
  "isNotifyingArrival (notifyArrival now p s) = True"
  "events (notifyArrival now p s) =
     (if isNotifyingArrival s then events s else events s @ [Arrival p (getCurrentFuel s) now])"
  by (simp_all add: notifyArrival_def Let_def updateState_fields getCurrentFuel_def)

section \<open>The fuel read across the operations\<close>

lemma fuel_updates:
  "getCurrentFuel (s\<lparr>destination := d\<rparr>) = getCurrentFuel s"
  "getCurrentFuel (s\<lparr>currentPosition := p\<rparr>) = getCurrentFuel s"
  "getCurrentFuel (s\<lparr>isRunning := b\<rparr>) = getCurrentFuel s"
  "getCurrentFuel (s\<lparr>intervalId := b\<rparr>) = getCurrentFuel s"
  "getCurrentFuel (s\<lparr>isNotifyingArrival := b\<rparr>) = getCurrentFuel s"
  "getCurrentFuel (s\<lparr>events := es\<rparr>) = getCurrentFuel s"
  "getCurrentFuel (s\<lparr>commandsOut := cs\<rparr>) = getCurrentFuel s"
  "getCurrentFuel (s\<lparr>pendingResets := n\<rparr>) = getCurrentFuel s"
  by (simp_all add: getCurrentFuel_def)

lemma getCurrentFuel_updateFuel: "getCurrentFuel (updateFuel n s) = n"
  by (simp add: getCurrentFuel_def updateFuel_def hGet_update read_num_text)

lemma getCurrentFuel_updateRedisPosition:
  "getCurrentFuel (updateRedisPosition c now s) = getCurrentFuel s"
  by (simp add: getCurrentFuel_def updateRedisPosition_def Let_def hGet_update read_num_text
      split: option.splits)

lemma getCurrentFuel_notify: "getCurrentFuel (notifyArrival now p s) = getCurrentFuel s"
  by (simp add: notifyArrival_def Let_def updateState_def getCurrentFuel_def encodeField_def
        JSON_stringify_def vecArray_def hGet_update read_num_text split: option.splits)

lemma command_fuel: "getCurrentFuel (handleCommand c now cmd s) = getCurrentFuel s"
  by (cases cmd) (simp_all add: handleCommand_def Let_def startInterpolation_def stop_fields
       fuel_updates)

lemma initialize_fuel:
  assumes "initialize c now s0 = Some s"
  shows "getCurrentFuel s = getCurrentFuel s0"
proof (cases "getState s0")
  case None
  then have e: "redis s0 = []" by (simp add: getState_def Let_def split: if_splits)
  have "getCurrentFuel (fst (updateState now
                     [(''position'', vecArray (V3 0 0 0)),
                      (''velocity'', vecArray (V3 0 0 0)),
                      (''fuel'', VNum (Num 100))] s0)) = Num 100"
    by (simp add: updateState_def Let_def getCurrentFuel_def encodeField_def hGet_update)
  moreover have "getCurrentFuel s0 = Num 100"
    by (simp add: getCurrentFuel_def e hGet_def)
  ultimately show ?thesis
    using assms None by (auto simp: initialize_def getCurrentFuel_updateRedisPosition)
next
  case (Some st)
  show ?thesis
    using assms Some
    by (auto simp: initialize_def Let_def getCurrentFuel_updateRedisPosition startInterpolation_def
          fuel_updates split: option.splits if_splits)
qed

section \<open>The branches of a tick\<close>

lemma tick_idle:
  "destination s = None \<or> \<not> isRunning s \<Longrightarrow> updatePosition c now s = s"
  by (auto simp: updatePosition_def split: option.splits)

lemma tick_no_fuel:
  assumes "destination s = Some dest" and "isRunning s" and "js_le0 (getCurrentFuel s)"
  shows "updatePosition c now s = stopInterpolation c now (s\<lparr>destination := None\<rparr>)"
  using assms by (simp add: updatePosition_def Let_def)

lemma tick_depletion:
  assumes "destination s = Some dest" and "isRunning s"
    and "getCurrentFuel s = Num fuel" and "0 < fuel" and "fuel - fuelConsumed c \<le> 0"
  shows "updatePosition c now s =
     (let s1 = updateFuel (Num 0) s;
          s2 = s1\<lparr>currentPosition :=
                 advance (currentPosition s) (heading s) (fuel / FUEL_CONSUMPTION_RATE c)\<rparr>;
          s3 = updateRedisPosition c now s2;
          s4 = s3\<lparr>events := events s3 @ [FuelDepleted (currentPosition s3) now]\<rparr>
      in stopInterpolation c now (s4\<lparr>destination := None\<rparr>))"
  using assms
  by (simp add: updatePosition_def Let_def updateFuel_def heading_def fuelConsumed_def
        moveDistance_def)

lemma tick_steady:
  assumes "destination s = Some dest" and "isRunning s" and "fuel_suffices c s"
  shows "updatePosition c now s =
     arriveOrMove c now dest (heading s) (remaining s) (moveDistance c)
       (updateFuel (fuel_after c s) s)"
  using assms
  by (simp add: updatePosition_def Let_def heading_def remaining_def fuel_suffices_def
        fuel_after_def fuelConsumed_def moveDistance_def)

lemma arrive:
  assumes "distance \<le> ARRIVAL_THRESHOLD"
  shows "arriveOrMove c now dest direction distance moveD s =
     notifyArrival now dest
       ((stopInterpolation c now (s\<lparr>currentPosition := dest\<rparr>))
          \<lparr>destination := None,
           redis := hSet (redis (stopInterpolation c now (s\<lparr>currentPosition := dest\<rparr>)))
                      [(''destination'', Raw [])]\<rparr>)"
  using assms by (simp add: arriveOrMove_def Let_def stop_fields)

lemma move:
  assumes "\<not> distance \<le> ARRIVAL_THRESHOLD"
  shows "arriveOrMove c now dest direction distance moveD s =
     updateRedisPosition c now
       (s\<lparr>currentPosition := advance (currentPosition s) direction (min moveD distance)\<rparr>)"
  using assms by (simp add: arriveOrMove_def Let_def)


lemma tick_move:
  assumes "destination s = Some dest" and "isRunning s" and "fuel_suffices c s"
    and "ARRIVAL_THRESHOLD < remaining s"
  shows "updatePosition c now s =
     updateRedisPosition c now
       ((updateFuel (fuel_after c s) s)
          \<lparr>currentPosition :=
             advance (currentPosition s) (heading s) (min (moveDistance c) (remaining s))\<rparr>)"
  using assms(4) by (simp add: tick_steady[OF assms(1-3)] move updateFuel_fields)

lemma tick_move_fields:
  assumes "destination s = Some dest" and "isRunning s" and "fuel_suffices c s"
    and "ARRIVAL_THRESHOLD < remaining s"
  shows "destination (updatePosition c now s) = Some dest"
    and "isRunning (updatePosition c now s)"
    and "currentPosition (updatePosition c now s) =
           advance (currentPosition s) (heading s) (min (moveDistance c) (remaining s))"
    and "getCurrentFuel (updatePosition c now s) = fuel_after c s"
    and "events (updatePosition c now s) = events s @ [FuelUpdate (fuel_after c s)]"
  by (simp_all add: tick_move[OF assms] urp_fields updateFuel_fields assms
        getCurrentFuel_updateRedisPosition fuel_updates getCurrentFuel_updateFuel)

lemma tick_cases:
  "js_le0 (getCurrentFuel s)
   \<or> (\<exists>fuel. getCurrentFuel s = Num fuel \<and> 0 < fuel \<and> fuel - fuelConsumed c \<le> 0)
   \<or> fuel_suffices c s"
  by (cases "getCurrentFuel s") (auto simp: fuel_suffices_def)

lemma getCurrentFuel_arriveOrMove:
  "getCurrentFuel (arriveOrMove c now dest direction distance moveD s) = getCurrentFuel s"
proof (cases "distance \<le> ARRIVAL_THRESHOLD")
  case True
  have "getCurrentFuel
       ((stopInterpolation c now (s\<lparr>currentPosition := dest\<rparr>))
          \<lparr>destination := None,
           redis := hSet (redis (stopInterpolation c now (s\<lparr>currentPosition := dest\<rparr>)))
                      [(''destination'', Raw [])]\<rparr>) = getCurrentFuel (stopInterpolation c now (s\<lparr>currentPosition := dest\<rparr>))"
    by (simp add: getCurrentFuel_def hGet_update)
  also have "\<dots> = getCurrentFuel s"
    by (simp add: stop_fields fuel_updates)
  finally show ?thesis
    by (simp add: arrive[OF True] getCurrentFuel_notify)
next
  case False
  show ?thesis
    by (simp add: move[OF False] getCurrentFuel_updateRedisPosition fuel_updates)
qed

section \<open>What a tick and a run preserve\<close>

lemma tick_fuel:
  "getCurrentFuel (updatePosition c now s) =
     (if destination s = None \<or> \<not> isRunning s \<or> js_le0 (getCurrentFuel s) then getCurrentFuel s
      else if js_le0 (js_sub (getCurrentFuel s) (fuelConsumed c)) then Num 0
      else fuel_after c s)"
proof (cases "destination s = None \<or> \<not> isRunning s")
  case True
  then show ?thesis using tick_idle[of s c now] by auto
next
  case False
  then obtain dest where d: "destination s = Some dest" and r: "isRunning s" by auto
  consider (empty) "js_le0 (getCurrentFuel s)"
    | (depl) fuel where "getCurrentFuel s = Num fuel" "0 < fuel" "fuel - fuelConsumed c \<le> 0"
    | (ok) "fuel_suffices c s"
    using tick_cases[of s c] by blast
  then show ?thesis
  proof cases
    case empty
    show ?thesis
      using d r empty by (simp add: tick_no_fuel[OF d r empty] stop_fields fuel_updates)
  next
    case depl
    have "getCurrentFuel (updatePosition c now s) = Num 0"
      using tick_depletion[OF d r depl, of now]
      by (simp add: Let_def stop_fields)
         (simp add: getCurrentFuel_def updateRedisPosition_def updateFuel_def Let_def hGet_update)
    then show ?thesis
      using d r depl by simp
  next
    case ok
    have "getCurrentFuel (updatePosition c now s) = fuel_after c s"
      by (simp add: tick_steady[OF d r ok] getCurrentFuel_arriveOrMove getCurrentFuel_updateFuel)
    then show ?thesis
      using d r ok by (simp add: fuel_suffices_def)
  qed
qed

lemma tick_fuel_le:
  assumes "0 \<le> fuelConsumed c" and "getCurrentFuel s = Num f"
  shows "\<exists>f'. getCurrentFuel (updatePosition c now s) = Num f' \<and> f' \<le> f \<and> min 0 f \<le> f'"
  using assms by (auto simp: tick_fuel fuel_after_def)

lemma tick_fuel_in_range:
  assumes "0 \<le> fuelConsumed c" and "fuel_in_range (getCurrentFuel s)"
  shows "fuel_in_range (getCurrentFuel (updatePosition c now s))"
proof -
  obtain f where f: "getCurrentFuel s = Num f" and "0 \<le> f" "f \<le> 100"
    using assms(2) by (cases "getCurrentFuel s") auto
  with tick_fuel_le[OF assms(1) f, of now] show ?thesis by auto
qed

lemma step_fuel_in_range:
  assumes "0 \<le> fuelConsumed c" and "fuel_in_range (getCurrentFuel s)"
  shows "fuel_in_range (getCurrentFuel (step c s a))"
proof (cases a)
  case (Tick now)
  then show ?thesis using tick_fuel_in_range[OF assms] by simp
next
  case (Command cmd now)
  then show ?thesis using assms(2) by (simp add: command_fuel)
next
  case (SetDestination d)
  then show ?thesis using assms(2) by (simp add: setDestination_fields)
next
  case CoolDown
  then show ?thesis using assms(2) by (simp add: coolDownExpired_def fuel_updates)
qed

lemma run_fuel_in_range:
  assumes "0 \<le> fuelConsumed c" and "fuel_in_range (getCurrentFuel s)"
  shows "fuel_in_range (getCurrentFuel (run c acts s))"
  using assms(2) unfolding run_def
proof (induction acts arbitrary: s)
  case Nil
  then show ?case by simp
next
  case (Cons a acts)
  show ?case
    using Cons.IH[OF step_fuel_in_range[OF assms(1) Cons.prems, of a]] by simp
qed


lemma tick_stopped:
  assumes "isRunning s" and "\<not> isRunning (updatePosition c now s)"
  shows "destination (updatePosition c now s) = None"
proof (cases "destination s")
  case None
  then show ?thesis by (simp add: tick_idle)
next
  case (Some dest)
  consider (empty) "js_le0 (getCurrentFuel s)"
    | (depl) fuel where "getCurrentFuel s = Num fuel" "0 < fuel" "fuel - fuelConsumed c \<le> 0"
    | (ok) "fuel_suffices c s"
    using tick_cases[of s c] by blast
  then show ?thesis
  proof cases
    case empty
    then show ?thesis by (simp add: tick_no_fuel[OF Some assms(1) empty] stop_fields)
  next
    case depl
    then show ?thesis
      using tick_depletion[OF Some assms(1) depl, of now] by (simp add: Let_def stop_fields)
  next
    case ok
    show ?thesis
    proof (cases "remaining s \<le> ARRIVAL_THRESHOLD")
      case True
      then show ?thesis
        by (simp add: tick_steady[OF Some assms(1) ok] arrive notify_fields)
    next
      case False
      then show ?thesis
        using assms by (simp add: tick_steady[OF Some assms(1) ok] move urp_fields updateFuel_fields)
    qed
  qed
qed



lemma step_dest:
  assumes "destination s \<noteq> None \<longrightarrow> isRunning s"
  shows "destination (step c s a) \<noteq> None \<longrightarrow> isRunning (step c s a)"
proof (cases a)
  case (Tick now)
  show ?thesis
  proof (cases "isRunning s")
    case True
    show ?thesis
    proof (cases "isRunning (updatePosition c now s)")
      case True
      then show ?thesis using Tick by simp
    next
      case False
      then show ?thesis using Tick tick_stopped[OF \<open>isRunning s\<close> False] by simp
    qed
  next
    case False
    then show ?thesis using Tick assms by (simp add: tick_idle)
  qed
next
  case (Command cmd now)
  then show ?thesis
    using assms
    by (cases cmd) (auto simp: handleCommand_def Let_def startInterpolation_def stop_fields)
next
  case (SetDestination d)
  then show ?thesis by (simp add: setDestination_fields)
next
  case CoolDown
  then show ?thesis using assms by (auto simp: coolDownExpired_def)
qed

lemma run_dest:
  assumes "destination s \<noteq> None \<longrightarrow> isRunning s"
  shows "destination (run c acts s) \<noteq> None \<longrightarrow> isRunning (run c acts s)"
  using assms unfolding run_def
proof (induction acts arbitrary: s)
  case Nil
  then show ?case by simp
next
  case (Cons a acts)
  show ?case using Cons.IH[OF step_dest[OF Cons.prems, of c a]] by simp
qed

section \<open>Geometry of a step\<close>

lemma distance_norm3: "calculateDistance a b = norm3 (towards a b)"
  by (simp add: calculateDistance_def norm3_def towards_def power2_eq_square)

lemma norm3_scale:
  assumes "0 \<le> k"
  shows "norm3 (V3 (k * a) (k * b) (k * c)) = k * norm3 (V3 a b c)"
proof -
  have "k * a * (k * a) + k * b * (k * b) + k * c * (k * c) = k\<^sup>2 * (a * a + b * b + c * c)"
    by (simp add: power2_eq_square algebra_simps)
  then show ?thesis
    using assms by (simp add: norm3_def real_sqrt_mult)
qed

lemma normalize_scale:
  assumes "0 < k"
  shows "normalizeVector (V3 (k * a) (k * b) (k * c)) = normalizeVector (V3 a b c)"
proof -
  have n: "norm3 (V3 (k * a) (k * b) (k * c)) = k * norm3 (V3 a b c)"
    using assms by (simp add: norm3_scale)
  show ?thesis
    using assms n by (simp add: normalizeVector_def Let_def norm3_def)
qed

lemma normalize_unit:
  assumes "norm3 v \<noteq> 0"
  shows "norm3 (normalizeVector v) = 1"
proof -
  let ?n = "norm3 v"
  have pos: "0 < ?n"
    using assms by (simp add: norm3_def less_le)
  have "normalizeVector v = V3 ((1 / ?n) * vx v) ((1 / ?n) * vy v) ((1 / ?n) * vz v)"
    using assms by (simp add: normalizeVector_def Let_def norm3_def)
  moreover have "norm3 (V3 ((1 / ?n) * vx v) ((1 / ?n) * vy v) ((1 / ?n) * vz v)) =
      (1 / ?n) * norm3 (V3 (vx v) (vy v) (vz v))"
    using pos by (intro norm3_scale) simp
  ultimately show ?thesis using assms by simp
qed

lemma norm3_zero: "norm3 (towards p d) = 0 \<longleftrightarrow> p = d"
proof -
  have "norm3 (towards p d) = 0 \<longleftrightarrow>
      (vx d - vx p) * (vx d - vx p) + (vy d - vy p) * (vy d - vy p)
        + (vz d - vz p) * (vz d - vz p) = 0"
    by (simp add: norm3_def towards_def)
  also have "\<dots> \<longleftrightarrow> vx d - vx p = 0 \<and> vy d - vy p = 0 \<and> vz d - vz p = 0"
    by (simp add: sum_squares_eq_zero_iff add_nonneg_eq_0_iff)
  also have "\<dots> \<longleftrightarrow> p = d"
    by (cases p; cases d) auto
  finally show ?thesis .
qed

lemma distance_advance: "calculateDistance p (advance p u t) = \<bar>t\<bar> * norm3 u"
proof -
  have "(vx u * t)\<^sup>2 + (vy u * t)\<^sup>2 + (vz u * t)\<^sup>2 =
          t\<^sup>2 * (vx u * vx u + vy u * vy u + vz u * vz u)"
    by (simp add: power2_eq_square algebra_simps)
  then show ?thesis
    by (simp add: calculateDistance_def advance_def norm3_def real_sqrt_mult)
qed

lemma affordable_magnitude:
  assumes "0 < fuel" and "fuel - fuelConsumed c \<le> 0"
  shows "\<bar>fuel / FUEL_CONSUMPTION_RATE c\<bar> \<le> \<bar>moveDistance c\<bar>"
proof -
  let ?r = "FUEL_CONSUMPTION_RATE c" and ?m = "moveDistance c"
  have le: "fuel \<le> ?m * ?r" using assms(2) by (simp add: fuelConsumed_def)
  then have nz: "?r \<noteq> 0" using assms(1) by auto
  have "\<bar>fuel\<bar> \<le> \<bar>?m * ?r\<bar>" using le assms(1) by simp
  then have "\<bar>fuel\<bar> \<le> \<bar>?m\<bar> * \<bar>?r\<bar>" by (simp add: abs_mult)
  then have "\<bar>fuel\<bar> / \<bar>?r\<bar> \<le> \<bar>?m\<bar>"
    using nz by (simp add: pos_divide_le_eq)
  then show ?thesis by simp
qed

lemma towards_advance:
  assumes "norm3 (towards p d) = L" and "0 < L"
  shows "towards (advance p (normalizeVector (towards p d)) t) d =
           V3 ((L - t) / L * vx (towards p d)) ((L - t) / L * vy (towards p d))
              ((L - t) / L * vz (towards p d))"
proof -
  have n: "normalizeVector (towards p d) =
            V3 (vx (towards p d) / L) (vy (towards p d) / L) (vz (towards p d) / L)"
    using assms by (simp add: normalizeVector_def Let_def norm3_def)
  show ?thesis
    using assms(2) by (simp add: n advance_def) (simp add: towards_def field_simps)
qed

lemma advance_short:
  assumes "calculateDistance p d = L" and "t < L" and "0 < L"
  shows "calculateDistance (advance p (normalizeVector (towards p d)) t) d = L - t"
    and "normalizeVector (towards (advance p (normalizeVector (towards p d)) t) d) =
           normalizeVector (towards p d)"
proof -
  have L: "norm3 (towards p d) = L" using assms(1) by (simp add: distance_norm3)
  have k: "0 < (L - t) / L" using assms by simp
  have v: "towards p d = V3 (vx (towards p d)) (vy (towards p d)) (vz (towards p d))" by simp
  show "calculateDistance (advance p (normalizeVector (towards p d)) t) d = L - t"
    using k norm3_scale[of "(L - t) / L" "vx (towards p d)" "vy (towards p d)" "vz (towards p d)"] L assms(3)
    by (simp add: distance_norm3 towards_advance[OF L assms(3)])
  show "normalizeVector (towards (advance p (normalizeVector (towards p d)) t) d) =
           normalizeVector (towards p d)"
    using normalize_scale[OF k, of "vx (towards p d)" "vy (towards p d)" "vz (towards p d)"]
    by (simp add: towards_advance[OF L assms(3)])
qed

lemma advance_full:
  assumes "calculateDistance p d = L" and "0 < L"
  shows "calculateDistance (advance p (normalizeVector (towards p d)) L) d = 0"
proof -
  have L: "norm3 (towards p d) = L" using assms(1) by (simp add: distance_norm3)
  show ?thesis
    by (simp add: distance_norm3 towards_advance[OF L assms(2)] norm3_def)
qed

lemma advance_advance:
  "advance (advance p u a) u b = advance p u (a + b)"
  by (simp add: advance_def algebra_simps)

section \<open>Steady state\<close>

lemma tick_move_geometry:
  assumes "destination s = Some dest" and "isRunning s" and "fuel_suffices c s"
    and "ARRIVAL_THRESHOLD < remaining s"
    and "ARRIVAL_THRESHOLD < remaining (updatePosition c now s)"
  shows "moveDistance c < remaining s"
    and "currentPosition (updatePosition c now s) =
           advance (currentPosition s) (heading s) (moveDistance c)"
    and "heading (updatePosition c now s) = heading s"
    and "remaining (updatePosition c now s) = remaining s - moveDistance c"
proof -
  let ?p = "currentPosition s" and ?L = "remaining s" and ?m = "moveDistance c"
  let ?s' = "updatePosition c now s"
  note F = tick_move_fields[OF assms(1-4), of now]
  have L: "calculateDistance ?p dest = ?L" and h: "heading s = normalizeVector (towards ?p dest)"
    by (simp_all add: remaining_def heading_def assms(1))
  have pos: "0 < ?L" using assms(4) by (simp add: ARRIVAL_THRESHOLD_def)
  have r': "remaining ?s' = calculateDistance (currentPosition ?s') dest"
    by (simp add: remaining_def F(1))
  show lt: "?m < ?L"
  proof (rule ccontr)
    assume "\<not> ?m < ?L"
    then have "min ?m ?L = ?L" by simp
    then have "remaining ?s' = 0"
      using advance_full[OF L pos] by (simp add: r' F(3) h)
    then show False using assms(5) by (simp add: ARRIVAL_THRESHOLD_def)
  qed
  then have mn: "min ?m ?L = ?m" by simp
  show "currentPosition ?s' = advance ?p (heading s) ?m"
    by (simp add: F(3) mn)
  show "heading ?s' = heading s"
    using advance_short(2)[OF L lt pos] by (simp add: heading_def F(1) F(3) mn assms(1))
  show "remaining ?s' = ?L - ?m"
    using advance_short(1)[OF L lt pos] by (simp add: r' F(3) mn h)
qed

lemma steady_total:
  "steadyRun c nows s \<Longrightarrow>
     currentPosition (ticks c nows s) =
       advance (currentPosition s) (heading s) (real (length nows) * moveDistance c)"
proof (induction nows arbitrary: s)
  case Nil
  then show ?case by (simp add: ticks_def advance_def)
next
  case (Cons now nows)
  let ?s' = "updatePosition c now s"
  from Cons.prems obtain dest where d: "destination s = Some dest" and r: "isRunning s"
    and f: "fuel_suffices c s" and b: "ARRIVAL_THRESHOLD < remaining s"
    and a: "ARRIVAL_THRESHOLD < remaining ?s'" and rest: "steadyRun c nows ?s'"
    by auto
  note G = tick_move_geometry[OF d r f b a]
  have "currentPosition (ticks c (now # nows) s) = currentPosition (ticks c nows ?s')"
    by (simp add: ticks_def)
  also have "\<dots> = advance (currentPosition ?s') (heading ?s') (real (length nows) * moveDistance c)"
    by (rule Cons.IH[OF rest])
  also have "\<dots> = advance (currentPosition s) (heading s)
                     (moveDistance c + real (length nows) * moveDistance c)"
    by (simp add: G(2) G(3) advance_advance)
  finally show ?case by (simp add: algebra_simps)
qed

lemma ticks_snoc: "ticks c (nows @ [now]) s = updatePosition c now (ticks c nows s)"
  by (simp add: ticks_def)

lemma steadyRun_moving: "steadyRun c nows s \<Longrightarrow> movingRun c nows s"
  by (induction nows arbitrary: s) simp_all

lemma movingRun_drop:
  "movingRun c nows s \<Longrightarrow> movingRun c (drop i nows) (ticks c (take i nows) s)"
proof (induction i arbitrary: nows s)
  case 0
  then show ?case by (simp add: ticks_def)
next
  case (Suc i)
  show ?case
  proof (cases nows)
    case Nil
    then show ?thesis by (simp add: ticks_def)
  next
    case (Cons now rest)
    then have "movingRun c rest (updatePosition c now s)" using Suc.prems by simp
    from Suc.IH[OF this] show ?thesis by (simp add: Cons ticks_def)
  qed
qed

lemma moving_each:
  assumes "movingRun c nows s" and "i < length nows"
  shows "currentPosition (ticks c (take (Suc i) nows) s) =
           advance (currentPosition (ticks c (take i nows) s)) (heading (ticks c (take i nows) s))
             (min (moveDistance c) (remaining (ticks c (take i nows) s)))
       \<and> norm3 (heading (ticks c (take i nows) s)) = 1"
proof -
  let ?t = "ticks c (take i nows) s"
  have "movingRun c (drop i nows) ?t" by (rule movingRun_drop[OF assms(1)])
  moreover have "drop i nows = nows ! i # drop (Suc i) nows"
    using assms(2) by (simp add: Cons_nth_drop_Suc)
  ultimately obtain dest where d: "destination ?t = Some dest" and r: "isRunning ?t"
    and f: "fuel_suffices c ?t" and b: "ARRIVAL_THRESHOLD < remaining ?t"
    by auto
  have "take (Suc i) nows = take i nows @ [nows ! i]"
    using assms(2) by (simp add: take_Suc_conv_app_nth)
  then have "ticks c (take (Suc i) nows) s = updatePosition c (nows ! i) ?t"
    by (simp add: ticks_snoc)
  then have 1: "currentPosition (ticks c (take (Suc i) nows) s) =
           advance (currentPosition ?t) (heading ?t) (min (moveDistance c) (remaining ?t))"
    by (simp add: tick_move_fields(3)[OF d r f b])
  have "norm3 (towards (currentPosition ?t) dest) \<noteq> 0"
    using b d by (simp add: remaining_def distance_norm3 ARRIVAL_THRESHOLD_def)
  then have 2: "norm3 (heading ?t) = 1"
    by (simp add: heading_def d normalize_unit)
  show ?thesis using 1 2 by simp
qed

lemma moving_total:
  assumes "moveDistance c \<le> ARRIVAL_THRESHOLD"
  shows "movingRun c nows s \<Longrightarrow>
     currentPosition (ticks c nows s) =
       advance (currentPosition s) (heading s) (real (length nows) * moveDistance c)"
proof (induction nows arbitrary: s)
  case Nil
  then show ?case by (simp add: ticks_def advance_def)
next
  case (Cons now nows)
  let ?s' = "updatePosition c now s"
  from Cons.prems obtain dest where d: "destination s = Some dest" and r: "isRunning s"
    and f: "fuel_suffices c s" and b: "ARRIVAL_THRESHOLD < remaining s"
    and rest: "movingRun c nows ?s'"
    by auto
  have p: "currentPosition ?s' = advance (currentPosition s) (heading s) (moveDistance c)"
    using assms b by (simp add: tick_move_fields(3)[OF d r f b])
  show ?case
  proof (cases nows)
    case Nil
    then show ?thesis by (simp add: ticks_def p)
  next
    case (Cons now' rest')
    then have a: "ARRIVAL_THRESHOLD < remaining ?s'" using rest by simp
    note G = tick_move_geometry[OF d r f b a]
    have "currentPosition (ticks c (now # nows) s) = currentPosition (ticks c nows ?s')"
      by (simp add: ticks_def)
    also have "\<dots> = advance (currentPosition ?s') (heading ?s')
                       (real (length nows) * moveDistance c)"
      by (rule Cons.IH[OF rest])
    also have "\<dots> = advance (currentPosition s) (heading s)
                       (moveDistance c + real (length nows) * moveDistance c)"
      by (simp add: G(2) G(3) advance_advance)
    finally show ?thesis by (simp add: algebra_simps)
  qed
qed

section \<open>Facts about the example states\<close>

lemma sqrt_10000: "sqrt 10000 = (100::real)"
  by (rule real_sqrt_unique) simp_all


lemma distance_x: "calculateDistance (V3 a 0 0) (V3 b 0 0) = \<bar>b - a\<bar>"
  by (simp add: calculateDistance_def)

lemma heading_x: "a < b \<Longrightarrow> normalizeVector (towards (V3 a 0 0) (V3 b 0 0)) = V3 1 0 0"
  by (simp add: normalizeVector_def towards_def)

lemma rate_default: "FUEL_CONSUMPTION_RATE default_config = 1 / 100"
  by (simp add: default_config_def)

lemma moveDistance_default: "moveDistance default_config = 12165 / 10000"
  by (simp add: moveDistance_def default_config_def UPDATE_INTERVAL_def)

lemma fuelConsumed_default: "fuelConsumed default_config = 12165 / 1000000"
  by (simp add: fuelConsumed_def moveDistance_def default_config_def UPDATE_INTERVAL_def)

lemma fresh_init:
  "initialize c now fresh = Some (updateRedisPosition c now
                  (fst (updateState now
                     [(''position'', vecArray (V3 0 0 0)),
                      (''velocity'', vecArray (V3 0 0 0)),
                      (''fuel'', VNum (Num 100))] fresh)))"
  by (simp add: initialize_def getState_def fresh_def)

lemma low_fuel_transit_facts:
  "destination low_fuel_transit = Some (V3 100 0 0)"
  "isRunning low_fuel_transit"
  "getCurrentFuel low_fuel_transit = Num (1 / 100)"
  "currentPosition low_fuel_transit = V3 0 0 0"
  "events low_fuel_transit = []"
  "heading low_fuel_transit = V3 1 0 0"
  "fuelConsumed default_config = 12165 / 1000000"
  by (simp_all add: low_fuel_transit_def setDestination_fields fresh_def getCurrentFuel_def
      hGet_def heading_def normalizeVector_def towards_def sqrt_10000 fuelConsumed_def
      moveDistance_def default_config_def UPDATE_INTERVAL_def)



lemma cruise_facts:
  "destination cruise = Some (V3 100 0 0)"
  "isRunning cruise"
  "getCurrentFuel cruise = Num 100"
  "currentPosition cruise = V3 0 0 0"
  by (simp_all add: cruise_def setDestination_fields)
     (simp_all add: fresh_def getCurrentFuel_def hGet_def)

lemma cruise_steady: "steadyRun default_config [50, 100] cruise"
proof -
  let ?c = default_config
  let ?s1 = "updatePosition ?c 50 cruise"
  let ?s2 = "updatePosition ?c 100 ?s1"
  have f0: "fuel_suffices ?c cruise"
    by (simp add: fuel_suffices_def cruise_facts fuelConsumed_default)
  have h0: "heading cruise = V3 1 0 0" and r0: "remaining cruise = 100"
    by (simp_all add: heading_def remaining_def cruise_facts heading_x distance_x)
  have b0: "ARRIVAL_THRESHOLD < remaining cruise"
    by (simp add: r0 ARRIVAL_THRESHOLD_def)
  note F1 = tick_move_fields[OF cruise_facts(1) cruise_facts(2) f0 b0, of 50]
  have p1: "currentPosition ?s1 = V3 (12165 / 10000) 0 0"
    by (simp add: F1(3) h0 r0 cruise_facts moveDistance_default advance_def)
  have h1: "heading ?s1 = V3 1 0 0" and r1: "remaining ?s1 = 100 - 12165 / 10000"
    by (simp_all add: heading_def remaining_def F1(1) p1 heading_x distance_x)
  have b1: "ARRIVAL_THRESHOLD < remaining ?s1"
    by (simp add: r1 ARRIVAL_THRESHOLD_def)
  have f1: "fuel_suffices ?c ?s1"
    by (simp add: fuel_suffices_def F1(4) fuel_after_def cruise_facts fuelConsumed_default)
  note F2 = tick_move_fields[OF F1(1) F1(2) f1 b1, of 100]
  have p2: "currentPosition ?s2 = V3 (2433 / 1000) 0 0"
    by (simp add: F2(3) h1 r1 p1 moveDistance_default advance_def)
  have r2: "remaining ?s2 = 100 - 2433 / 1000"
    by (simp add: remaining_def F2(1) p2 distance_x)
  have b2: "ARRIVAL_THRESHOLD < remaining ?s2"
    by (simp add: r2 ARRIVAL_THRESHOLD_def)
  show ?thesis
    using cruise_facts(1,2) f0 b0 b1 F1(1,2) f1 b2 by simp
qed

lemma approach_facts:
  "destination approach = Some (V3 11 0 0)"
  "isRunning approach"
  "getCurrentFuel approach = Num 100"
  "currentPosition approach = V3 0 0 0"
  by (simp_all add: approach_def setDestination_fields)
     (simp_all add: fresh_def getCurrentFuel_def hGet_def)

lemma approach_moving:
  "movingRun default_config [50] approach \<and> \<not> steadyRun default_config [50] approach"
proof -
  let ?c = default_config
  have f0: "fuel_suffices ?c approach"
    by (simp add: fuel_suffices_def approach_facts fuelConsumed_default)
  have h0: "heading approach = V3 1 0 0" and r0: "remaining approach = 11"
    by (simp_all add: heading_def remaining_def approach_facts heading_x distance_x)
  have b0: "ARRIVAL_THRESHOLD < remaining approach"
    by (simp add: r0 ARRIVAL_THRESHOLD_def)
  note F1 = tick_move_fields[OF approach_facts(1) approach_facts(2) f0 b0, of 50]
  have p1: "currentPosition (updatePosition ?c 50 approach) = V3 (12165 / 10000) 0 0"
    by (simp add: F1(3) h0 r0 approach_facts moveDistance_default advance_def)
  have r1: "remaining (updatePosition ?c 50 approach) = 11 - 12165 / 10000"
    by (simp add: remaining_def F1(1) p1 distance_x)
  show ?thesis
    using approach_facts(1,2) f0 b0 by (simp add: r1 ARRIVAL_THRESHOLD_def)
qed

section \<open>The properties\<close>

subsection \<open>Fuel invariant\<close>

text \<open>
  C1, as it holds of the code. Let the tick's fuel draw be non-negative and let the fuel
  read from the store before initialization lie in [0, 100] (a missing field reads as
  100, so this holds for the first start over an empty store). Then in every state reached
  from the initialized interpolator by ticks, commands, \<open>setDestination\<close> calls and
  cool-down expiries the fuel lies in [0, 100]; the next tick does not increase it; and
  the fuel after that tick is the fuel before it, 0, or the floored deduction.
  Initialization itself never changes the fuel that is read, so it caps nothing.
\<close>

theorem fuel_invariant:
  assumes "0 \<le> fuelConsumed c" and "fuel_in_range (getCurrentFuel s0)"
    and "initialize c t0 s0 = Some s"
  shows "fuel_in_range (getCurrentFuel (run c acts s))
       \<and> (\<exists>f f'. getCurrentFuel (run c acts s) = Num f
                \<and> getCurrentFuel (updatePosition c now (run c acts s)) = Num f'
                \<and> f' \<le> f)
       \<and> getCurrentFuel (updatePosition c now (run c acts s)) \<in>
            {getCurrentFuel (run c acts s), Num 0, fuel_after c (run c acts s)}"
proof -
  let ?s = "run c acts s"
  have "fuel_in_range (getCurrentFuel s)"
    using assms(2) initialize_fuel[OF assms(3)] by simp
  then have r: "fuel_in_range (getCurrentFuel ?s)"
    by (rule run_fuel_in_range[OF assms(1)])
  then obtain f where f: "getCurrentFuel ?s = Num f"
    by (cases "getCurrentFuel ?s") auto
  from tick_fuel_le[OF assms(1) f, of now] have
    "\<exists>f f'. getCurrentFuel ?s = Num f \<and> getCurrentFuel (updatePosition c now ?s) = Num f' \<and> f' \<le> f"
    using f by auto
  moreover have "getCurrentFuel (updatePosition c now ?s) \<in>
            {getCurrentFuel ?s, Num 0, fuel_after c ?s}"
    by (simp add: tick_fuel)
  ultimately show ?thesis using r by blast
qed

theorem fuel_invariant_witness:
  "0 \<le> fuelConsumed default_config \<and> fuel_in_range (getCurrentFuel fresh)
   \<and> (\<exists>s. initialize default_config 0 fresh = Some s
          \<and> getCurrentFuel s = Num 100
          \<and> fuel_in_range (getCurrentFuel (run default_config [SetDestination (V3 100 0 0), Tick 50] s)))"
proof -
  have h1: "0 \<le> fuelConsumed default_config" by (simp add: fuelConsumed_default)
  have h2: "fuel_in_range (getCurrentFuel fresh)"
    by (simp add: getCurrentFuel_def fresh_def hGet_def)
  obtain s where h3: "initialize default_config 0 fresh = Some s"
    by (simp add: fresh_init)
  have "getCurrentFuel s = Num 100"
    using initialize_fuel[OF h3] by (simp add: getCurrentFuel_def fresh_def hGet_def)
  then show ?thesis
    using h1 h2 h3 fuel_invariant[OF h1 h2 h3, of "[SetDestination (V3 100 0 0), Tick 50]" 100]
    by simp
qed

text \<open>
  Over a record whose fuel field holds 250, initialization succeeds and the fuel read after
  it is 250; after a destination has been set and one tick has run it is 249.987835.
\<close>

theorem fuel_invariant_counterexample:
  "\<exists>s. initialize default_config 0 overfull = Some s
      \<and> getCurrentFuel s = Num 250
      \<and> getCurrentFuel (run default_config [SetDestination (V3 100 0 0), Tick 50] s) =
          Num (250 - 12165 / 1000000)"
proof -
  have "initialize default_config 0 overfull = Some (updateRedisPosition default_config 0 overfull)"
    by (simp add: initialize_def getState_def overfull_def fresh_def Let_def hGet_def
          readVector_def readDestination_def vecArray_def arrayToVector3_def)
  moreover have f: "getCurrentFuel (updateRedisPosition default_config 0 overfull) = Num 250"
    by (simp add: getCurrentFuel_updateRedisPosition) (simp add: getCurrentFuel_def overfull_def fresh_def hGet_def)
  moreover have "getCurrentFuel (run default_config [SetDestination (V3 100 0 0), Tick 50]
       (updateRedisPosition default_config 0 overfull)) = Num (250 - 12165 / 1000000)"
    by (simp add: run_def tick_fuel setDestination_fields f fuelConsumed_default fuel_after_def)
  ultimately show ?thesis by blast
qed

subsection \<open>Depletion\<close>

text \<open>
  C2. On a tick of a running transit whose fuel is positive but not more than the tick's
  draw, the ship advances by fuel / consumption rate along the unit vector towards the
  destination: unless it already is at the destination, the distance it covers is exactly
  that; the distance is at most the candidate travel distance (in magnitude always, and
  as signed numbers when the rate is positive). The fuel read afterwards is exactly 0 and
  so is the stored field; the last event published is \<open>FuelDepleted\<close> with the new
  position; the destination is cleared in memory and in the store; the loop is stopped,
  its timer is cleared and \<open>isMoving\<close> is stored as false.
\<close>

theorem depletion_postcondition:
  assumes "destination s = Some dest" and "isRunning s"
    and "getCurrentFuel s = Num fuel" and "0 < fuel" and "fuel - fuelConsumed c \<le> 0"
  shows "currentPosition (updatePosition c now s) =
           advance (currentPosition s) (heading s) (fuel / FUEL_CONSUMPTION_RATE c)
       \<and> (currentPosition s \<noteq> dest \<longrightarrow>
            calculateDistance (currentPosition s) (currentPosition (updatePosition c now s)) =
              \<bar>fuel / FUEL_CONSUMPTION_RATE c\<bar>)
       \<and> \<bar>fuel / FUEL_CONSUMPTION_RATE c\<bar> \<le> \<bar>moveDistance c\<bar>
       \<and> (0 < FUEL_CONSUMPTION_RATE c \<longrightarrow> fuel / FUEL_CONSUMPTION_RATE c \<le> moveDistance c)
       \<and> getCurrentFuel (updatePosition c now s) = Num 0
       \<and> hGet (redis (updatePosition c now s)) ''fuel'' = Some (Json (VNum (Num 0)))
       \<and> last (events (updatePosition c now s)) =
           FuelDepleted (currentPosition (updatePosition c now s)) now
       \<and> destination (updatePosition c now s) = None
       \<and> hGet (redis (updatePosition c now s)) ''destination'' = Some (Raw [])
       \<and> isRunning (updatePosition c now s) = False
       \<and> intervalId (updatePosition c now s) = False
       \<and> hGet (redis (updatePosition c now s)) ''isMoving'' = Some (Json (VBool False))"
proof -
  let ?s' = "updatePosition c now s"
  let ?p = "advance (currentPosition s) (heading s) (fuel / FUEL_CONSUMPTION_RATE c)"
  let ?t = "(updateRedisPosition c now ((updateFuel (Num 0) s)\<lparr>currentPosition := ?p\<rparr>))
              \<lparr>events := events s @ [FuelUpdate (Num 0), FuelDepleted ?p now],
               destination := None\<rparr>"
  have afford: "0 < FUEL_CONSUMPTION_RATE c \<longrightarrow> fuel / FUEL_CONSUMPTION_RATE c \<le> moveDistance c"
    using assms(5) by (simp add: fuelConsumed_def pos_divide_le_eq)
  have magnitude: "\<bar>fuel / FUEL_CONSUMPTION_RATE c\<bar> \<le> \<bar>moveDistance c\<bar>"
    by (rule affordable_magnitude[OF assms(4,5)])
  have eq: "?s' = stopInterpolation c now ?t"
    using tick_depletion[OF assms(1-5), of now]
    by (simp add: Let_def urp_fields updateFuel_def)
  have run: "isRunning ?t"
    by (simp add: urp_fields updateFuel_def assms)
  have pos: "currentPosition ?s' = ?p"
    by (simp add: eq stop_fields urp_fields)
  have covered: "currentPosition s \<noteq> dest \<longrightarrow>
      calculateDistance (currentPosition s) (currentPosition ?s') = \<bar>fuel / FUEL_CONSUMPTION_RATE c\<bar>"
  proof
    assume "currentPosition s \<noteq> dest"
    then have "norm3 (towards (currentPosition s) dest) \<noteq> 0"
      by (simp add: norm3_zero)
    then have "norm3 (heading s) = 1"
      by (simp add: heading_def assms(1) normalize_unit)
    then show "calculateDistance (currentPosition s) (currentPosition ?s') =
        \<bar>fuel / FUEL_CONSUMPTION_RATE c\<bar>"
      by (simp add: pos distance_advance)
  qed
  have fuel0: "getCurrentFuel ?t = Num 0"
    by (simp add: getCurrentFuel_def updateRedisPosition_def updateFuel_def Let_def
          hGet_update)
  have f: "getCurrentFuel ?s' = Num 0"
    by (simp add: eq stop_fields fuel0)
  have store:
    "hGet (redis (stopInterpolation c now ?t)) ''fuel'' = Some (Json (VNum (Num 0)))
     \<and> hGet (redis (stopInterpolation c now ?t)) ''destination'' = Some (Raw [])"
    using run
    by (simp add: stopInterpolation_def Let_def updateRedisPosition_def updateFuel_def
          getCurrentFuel_def hGet_update)
  have ev: "events ?s' = events s @ [FuelUpdate (Num 0), FuelDepleted (currentPosition ?s') now]"
    by (simp add: eq stop_fields urp_fields)
  have rest: "last (events ?s') = FuelDepleted (currentPosition ?s') now
       \<and> destination ?s' = None
       \<and> hGet (redis ?s') ''destination'' = Some (Raw [])
       \<and> isRunning ?s' = False
       \<and> intervalId ?s' = False
       \<and> hGet (redis ?s') ''isMoving'' = Some (Json (VBool False))
       \<and> hGet (redis ?s') ''fuel'' = Some (Json (VNum (Num 0)))"
    using store ev stop_running_store[OF run, of c now]
    by (simp add: eq stop_fields urp_fields)
  show ?thesis
    using pos covered magnitude afford f rest by blast
qed

theorem depletion_postcondition_witness:
  "currentPosition low_fuel_transit \<noteq> V3 100 0 0
   \<and> 0 < FUEL_CONSUMPTION_RATE default_config
   \<and> currentPosition (updatePosition default_config 1000 low_fuel_transit) = V3 1 0 0
   \<and> calculateDistance (currentPosition low_fuel_transit)
        (currentPosition (updatePosition default_config 1000 low_fuel_transit)) = 1
   \<and> 1 \<le> moveDistance default_config
   \<and> getCurrentFuel (updatePosition default_config 1000 low_fuel_transit) = Num 0
   \<and> last (events (updatePosition default_config 1000 low_fuel_transit)) =
       FuelDepleted (V3 1 0 0) 1000
   \<and> destination (updatePosition default_config 1000 low_fuel_transit) = None
   \<and> isRunning (updatePosition default_config 1000 low_fuel_transit) = False"
proof -
  note A = depletion_postcondition[of low_fuel_transit "V3 100 0 0" "1 / 100" default_config 1000]
  have h: "destination low_fuel_transit = Some (V3 100 0 0)" "isRunning low_fuel_transit"
    "getCurrentFuel low_fuel_transit = Num (1 / 100)" "(0::real) < 1 / 100"
    "1 / 100 - fuelConsumed default_config \<le> 0"
    by (simp_all add: low_fuel_transit_facts)
  have q: "1 / 100 / FUEL_CONSUMPTION_RATE default_config = 1"
    by (simp add: rate_default)
  have n: "currentPosition low_fuel_transit \<noteq> V3 100 0 0"
    and r: "0 < FUEL_CONSUMPTION_RATE default_config"
    by (simp_all add: low_fuel_transit_facts rate_default)
  have p: "advance (currentPosition low_fuel_transit) (heading low_fuel_transit) 1 = V3 1 0 0"
    by (simp add: low_fuel_transit_facts advance_def)
  show ?thesis
    using A[OF h] n r unfolding q p by (simp add: low_fuel_transit_facts distance_x)
qed

subsection \<open>Arrival\<close>




subsection \<open>Steady-state displacement\<close>

text \<open>
  C4. Take N consecutive ticks of a transit, none of them an arrival or a depletion (the
  fuel passes both checks and the remaining distance is above the arrival threshold before
  each tick), in which the remaining distance stays above the threshold after each tick as
  well; or, when no tick can cover more than the threshold (the default constants give
  1.2165 against 10), any N such ticks, the last of which may end within the threshold.
  Then each tick advances the position by min(candidate travel distance, remaining
  distance) along the unit vector towards the destination, and the position after the N
  ticks is the starting position advanced along that unit vector by
  N * (tick period in seconds) * (configured speed).
\<close>

theorem steady_displacement:
  assumes "steadyRun c nows s \<or> (moveDistance c \<le> ARRIVAL_THRESHOLD \<and> movingRun c nows s)"
  shows "(\<forall>i<length nows.
            currentPosition (ticks c (take (Suc i) nows) s) =
              advance (currentPosition (ticks c (take i nows) s))
                (heading (ticks c (take i nows) s))
                (min (moveDistance c) (remaining (ticks c (take i nows) s)))
            \<and> norm3 (heading (ticks c (take i nows) s)) = 1)
       \<and> currentPosition (ticks c nows s) =
           advance (currentPosition s) (heading s)
             (real (length nows) * (UPDATE_INTERVAL / 1000) * MOVEMENT_SPEED c)"
proof -
  have m: "movingRun c nows s" using assms steadyRun_moving by blast
  have "currentPosition (ticks c nows s) =
       advance (currentPosition s) (heading s) (real (length nows) * moveDistance c)"
    using assms steady_total[of c nows s] moving_total[of c nows s] by blast
  then show ?thesis
    using moving_each[OF m] by (simp add: moveDistance_def mult.commute mult.left_commute)
qed

theorem steady_displacement_witness:
  "steadyRun default_config [50, 100] cruise
   \<and> currentPosition (ticks default_config [50, 100] cruise) = V3 (2433 / 1000) 0 0
   \<and> currentPosition (ticks default_config [50] cruise) = V3 (12165 / 10000) 0 0
   \<and> moveDistance default_config \<le> ARRIVAL_THRESHOLD
   \<and> movingRun default_config [50] approach
   \<and> currentPosition (ticks default_config [50] approach) = V3 (12165 / 10000) 0 0"
proof -
  have h: "heading cruise = V3 1 0 0" and r: "remaining cruise = 100"
    by (simp_all add: heading_def remaining_def cruise_facts heading_x distance_x)
  have t: "ticks default_config [] cruise = cruise" by (simp add: ticks_def)
  have c1: "steadyRun default_config [50, 100] cruise
      \<or> (moveDistance default_config \<le> ARRIVAL_THRESHOLD \<and> movingRun default_config [50, 100] cruise)"
    using cruise_steady by simp
  note A = steady_displacement[OF c1]
  have 1: "currentPosition (ticks default_config [50, 100] cruise) =
      advance (currentPosition cruise) (heading cruise)
             (real (length [50::int, 100]) * (UPDATE_INTERVAL / 1000) * MOVEMENT_SPEED default_config)"
    using A by blast
  have "currentPosition (ticks default_config (take (Suc 0) [50, 100]) cruise) =
              advance (currentPosition (ticks default_config (take 0 [50, 100]) cruise))
                (heading (ticks default_config (take 0 [50, 100]) cruise))
                (min (moveDistance default_config)
                   (remaining (ticks default_config (take 0 [50, 100]) cruise)))"
    using A by auto
  then have 2: "currentPosition (ticks default_config [50] cruise) = V3 (12165 / 10000) 0 0"
    by (simp add: t h r cruise_facts moveDistance_default advance_def)
  have m: "moveDistance default_config \<le> ARRIVAL_THRESHOLD"
    by (simp add: moveDistance_default ARRIVAL_THRESHOLD_def)
  have c2: "steadyRun default_config [50] approach
      \<or> (moveDistance default_config \<le> ARRIVAL_THRESHOLD \<and> movingRun default_config [50] approach)"
    using m approach_moving by simp
  have h': "heading approach = V3 1 0 0"
    by (simp add: heading_def approach_facts heading_x)
  have "currentPosition (ticks default_config [50] approach) =
      advance (currentPosition approach) (heading approach)
             (real (length [50::int]) * (UPDATE_INTERVAL / 1000) * MOVEMENT_SPEED default_config)"
    using steady_displacement[OF c2] by blast
  then have 3: "currentPosition (ticks default_config [50] approach) = V3 (12165 / 10000) 0 0"
    by (simp add: h' approach_facts advance_def UPDATE_INTERVAL_def default_config_def)
  show ?thesis
    using cruise_steady 1 2 3 m approach_moving
    by (simp add: h cruise_facts advance_def UPDATE_INTERVAL_def default_config_def)
qed

text \<open>
  Where the condition on the distance after the tick matters: a tick of the fast ship
  covers the whole remaining distance of 20, less than its candidate distance of 50, and
  ends on the destination. The remaining distance has not stayed above the threshold.
\<close>

lemma fast_hop_lands:
  "movingRun fast_config [50] fast_hop
   \<and> moveDistance fast_config = 50
   \<and> remaining fast_hop = 20
   \<and> currentPosition (ticks fast_config [50] fast_hop) = V3 20 0 0
   \<and> remaining (ticks fast_config [50] fast_hop) = 0"
proof -
  let ?c = fast_config
  have facts: "destination fast_hop = Some (V3 20 0 0)" "isRunning fast_hop"
    "getCurrentFuel fast_hop = Num 100" "currentPosition fast_hop = V3 0 0 0"
    by (simp_all add: fast_hop_def setDestination_fields)
       (simp_all add: fresh_def getCurrentFuel_def hGet_def)
  have m: "moveDistance ?c = 50" and fc: "fuelConsumed ?c = 1 / 2"
    by (simp_all add: fuelConsumed_def moveDistance_def fast_config_def UPDATE_INTERVAL_def)
  have f0: "fuel_suffices ?c fast_hop"
    by (simp add: fuel_suffices_def facts fc)
  have h0: "heading fast_hop = V3 1 0 0" and r0: "remaining fast_hop = 20"
    by (simp_all add: heading_def remaining_def facts heading_x distance_x)
  have b0: "ARRIVAL_THRESHOLD < remaining fast_hop"
    by (simp add: r0 ARRIVAL_THRESHOLD_def)
  note F1 = tick_move_fields[OF facts(1) facts(2) f0 b0, of 50]
  have p1: "currentPosition (updatePosition ?c 50 fast_hop) = V3 20 0 0"
    by (simp add: F1(3) h0 r0 facts m advance_def)
  have r1: "remaining (updatePosition ?c 50 fast_hop) = 0"
    by (simp add: remaining_def F1(1) p1 distance_x)
  show ?thesis
    using facts(1,2) f0 b0 m r0 p1 r1 by (simp add: ticks_def)
qed

subsection \<open>Read defaulting\<close>

text \<open>
  C5, as it holds of the code. A read of a non-empty record always returns a state.
  Position and velocity are [0, 0, 0] when the field is missing, empty, rejected by
  \<^verbatim>\<open>JSON.parse\<close> or not an array; the destination is absent when the field is missing,
  empty or rejected; the fuel is 100 when the field is missing or empty and is otherwise
  what \<^verbatim>\<open>parseFloat\<close> reads from the text (\<open>getCurrentFuel\<close> reads the same);
  \<open>isMoving\<close> is false unless the field is exactly \<^verbatim>\<open>true\<close>.
\<close>

theorem getState_defaults:
  assumes "redis s \<noteq> []"
  shows "\<exists>v. getState s = Some v
     \<and> (absent (hGet (redis s) ''position'') \<or> unparsable (hGet (redis s) ''position'')
          \<or> not_an_array (hGet (redis s) ''position'')
        \<longrightarrow> st_position v = vecArray (V3 0 0 0))
     \<and> (absent (hGet (redis s) ''velocity'') \<or> unparsable (hGet (redis s) ''velocity'')
          \<or> not_an_array (hGet (redis s) ''velocity'')
        \<longrightarrow> st_velocity v = vecArray (V3 0 0 0))
     \<and> (absent (hGet (redis s) ''destination'') \<or> unparsable (hGet (redis s) ''destination'')
        \<longrightarrow> st_destination v = VNull)
     \<and> (absent (hGet (redis s) ''fuel'') \<longrightarrow> st_fuel v = Num 100 \<and> getCurrentFuel s = Num 100)
     \<and> (\<not> absent (hGet (redis s) ''fuel'') \<longrightarrow>
          st_fuel v = parseFloat (the (hGet (redis s) ''fuel'')) \<and> getCurrentFuel s = st_fuel v)
     \<and> (hGet (redis s) ''isMoving'' \<noteq> Some (Json (VBool True)) \<longrightarrow> st_isMoving v = False)"
proof -
  have vec: "\<And>f. absent f \<or> unparsable f \<or> not_an_array f \<Longrightarrow> readVector f = vecArray (V3 0 0 0)"
  proof -
    fix f :: "rtext option"
    assume a: "absent f \<or> unparsable f \<or> not_an_array f"
    show "readVector f = vecArray (V3 0 0 0)"
    proof (cases f)
      case None
      then show ?thesis by (simp add: readVector_def)
    next
      case (Some t)
      show ?thesis
      proof (cases "JSON_parse t")
        case None
        then show ?thesis using Some by (simp add: readVector_def)
      next
        case (Some v)
        then have "\<not> nonempty t \<or> \<not> is_array v"
          using a \<open>f = Some t\<close> by (auto simp: absent_def unparsable_def not_an_array_def)
        then show ?thesis
          using Some \<open>f = Some t\<close> by (cases v) (auto simp: readVector_def)
      qed
    qed
  qed
  have dest: "\<And>f. absent f \<or> unparsable f \<Longrightarrow> readDestination f = VNull"
    by (auto simp: absent_def unparsable_def readDestination_def split: option.splits)
  show ?thesis
    using assms vec dest
    by (auto simp: getState_def Let_def getCurrentFuel_def absent_def split: option.splits)
qed

theorem getState_defaults_witness:
  "redis garbled \<noteq> []
   \<and> getState garbled =
       Some \<lparr>st_position = VArr [VNum (Num 0), VNum (Num 0), VNum (Num 0)],
             st_velocity = VArr [VNum (Num 0), VNum (Num 0), VNum (Num 0)],
             st_destination = VNull, st_fuel = Num 100, st_target_planet_id = None,
             st_isMoving = False\<rparr>
   \<and> unparsable (hGet (redis garbled) ''position'')
   \<and> not_an_array (hGet (redis garbled) ''velocity'')
   \<and> absent (hGet (redis garbled) ''destination'')
   \<and> absent (hGet (redis garbled) ''fuel'')
   \<and> hGet (redis garbled) ''isMoving'' \<noteq> Some (Json (VBool True))"
proof -
  have h: "redis garbled \<noteq> []" by (simp add: garbled_def fresh_def)
  have f: "unparsable (hGet (redis garbled) ''position'')"
    "not_an_array (hGet (redis garbled) ''velocity'')"
    "absent (hGet (redis garbled) ''destination'')"
    "absent (hGet (redis garbled) ''fuel'')"
    "hGet (redis garbled) ''isMoving'' \<noteq> Some (Json (VBool True))"
    "hGet (redis garbled) ''target_planet_id'' = None"
    by (simp_all add: garbled_def fresh_def hGet_def unparsable_def not_an_array_def absent_def)
  obtain v where v: "getState garbled = Some v"
    and "st_position v = vecArray (V3 0 0 0)" "st_velocity v = vecArray (V3 0 0 0)"
    "st_destination v = VNull" "st_fuel v = Num 100" "st_isMoving v = False"
    using getState_defaults[OF h] f by auto
  moreover have "st_target_planet_id v = None"
    using v f(6) h by (auto simp: getState_def Let_def)
  ultimately have "getState garbled =
       Some \<lparr>st_position = VArr [VNum (Num 0), VNum (Num 0), VNum (Num 0)],
             st_velocity = VArr [VNum (Num 0), VNum (Num 0), VNum (Num 0)],
             st_destination = VNull, st_fuel = Num 100, st_target_planet_id = None,
             st_isMoving = False\<rparr>"
    by (cases v) (simp add: vecArray_def)
  then show ?thesis using h f by simp
qed

text \<open>
  Over a record whose fuel field holds the text \<^verbatim>\<open>abc\<close> the fuel read is NaN, not 100.
\<close>

theorem getState_defaults_counterexample:
  "\<exists>v. getState garbled_fuel = Some v \<and> st_fuel v = NaN \<and> st_fuel v \<noteq> Num 100
       \<and> getCurrentFuel garbled_fuel = NaN"
  by (simp add: getState_def garbled_fuel_def fresh_def Let_def hGet_def getCurrentFuel_def)

subsection \<open>Round trip\<close>

text \<open>
  C6. Right after \<open>setDestination d\<close>, which returns true, \<open>getState\<close> returns a state
  whose destination is \<open>d\<close>, whose \<open>isMoving\<close> is true and whose fuel is the fuel level read
  before the call.
\<close>

theorem setDestination_getState:
  "snd (setDestination d s) = True
   \<and> (\<exists>v. getState (fst (setDestination d s)) = Some v
          \<and> st_destination v = vecArray d
          \<and> st_isMoving v = True
          \<and> st_fuel v = getCurrentFuel s)"
  by (simp add: setDestination_fields getState_def Let_def hGet_update readDestination_def
       vecArray_def read_num_text)

theorem setDestination_getState_witness:
  "\<exists>v. getState (fst (setDestination (V3 100 0 0) empty_tank)) = Some v
       \<and> st_destination v = VArr [VNum (Num 100), VNum (Num 0), VNum (Num 0)]
       \<and> st_isMoving v = True \<and> st_fuel v = Num 0"
  using setDestination_getState[of "V3 100 0 0" empty_tank]
  by (simp add: vecArray_def empty_tank_def fresh_def getCurrentFuel_def hGet_def)

subsection \<open>Stopping\<close>

text \<open>
  C7. A \<open>Stop\<close> command clears the destination and leaves the loop stopped; when the loop
  was running it clears the timer and stores \<open>isMoving\<close> as false and an empty
  destination. Ticks after it change nothing, so the position stays where it was. A second
  \<open>Stop\<close> changes nothing; \<open>stopInterpolation\<close> on a stopped loop changes nothing; \<open>Stop\<close>
  on an idle interpolator changes nothing; \<open>Stop\<close> after a tick that stopped the loop
  (out of fuel, depletion or arrival) changes nothing; and in every state reached from one
  in which a destination is set only while the loop runs, \<open>Stop\<close> on a stopped loop
  changes nothing.
\<close>

theorem stop_command:
  "destination (handleCommand c now Stop s) = None
   \<and> isRunning (handleCommand c now Stop s) = False
   \<and> (isRunning s \<longrightarrow>
        intervalId (handleCommand c now Stop s) = False
        \<and> hGet (redis (handleCommand c now Stop s)) ''isMoving'' = Some (Json (VBool False))
        \<and> hGet (redis (handleCommand c now Stop s)) ''destination'' = Some (Raw []))
   \<and> currentPosition (ticks c nows (handleCommand c now Stop s)) = currentPosition s
   \<and> ticks c nows (handleCommand c now Stop s) = handleCommand c now Stop s
   \<and> handleCommand c now' Stop (handleCommand c now Stop s) = handleCommand c now Stop s
   \<and> (\<not> isRunning s \<longrightarrow> stopInterpolation c now s = s)
   \<and> (\<not> isRunning s \<and> destination s = None \<longrightarrow> handleCommand c now Stop s = s)
   \<and> (isRunning s \<and> \<not> isRunning (updatePosition c now s) \<longrightarrow>
        handleCommand c now' Stop (updatePosition c now s) = updatePosition c now s)
   \<and> ((destination s \<noteq> None \<longrightarrow> isRunning s) \<and> \<not> isRunning (run c acts s) \<longrightarrow>
        handleCommand c now' Stop (run c acts s) = run c acts s)"
proof -
  let ?s' = "handleCommand c now Stop s"
  have eq: "?s' = stopInterpolation c now (s\<lparr>destination := None\<rparr>)"
    by (simp add: handleCommand_def)
  have f: "destination ?s' = None" "isRunning ?s' = False" "currentPosition ?s' = currentPosition s"
    by (simp_all add: eq stop_fields)
  have idle: "\<And>t. destination t = None \<Longrightarrow> \<not> isRunning t \<Longrightarrow> handleCommand c now' Stop t = t"
  proof -
    fix t :: interp
    assume "destination t = None" "\<not> isRunning t"
    then have "t\<lparr>destination := None\<rparr> = t" by simp
    then show "handleCommand c now' Stop t = t"
      using \<open>\<not> isRunning t\<close> by (simp add: handleCommand_def stop_stopped)
  qed
  have tk: "ticks c nows ?s' = ?s'"
    unfolding ticks_def by (induction nows) (simp_all add: tick_idle f)
  have st: "isRunning s \<longrightarrow>
        intervalId ?s' = False
        \<and> hGet (redis ?s') ''isMoving'' = Some (Json (VBool False))
        \<and> hGet (redis ?s') ''destination'' = Some (Raw [])"
    by (simp add: eq stopInterpolation_def Let_def updateRedisPosition_def hGet_update)
  have again: "handleCommand c now' Stop ?s' = ?s'"
    by (rule idle) (simp_all add: f)
  have noop: "\<not> isRunning s \<and> destination s = None \<longrightarrow> handleCommand c now Stop s = s"
  proof
    assume a: "\<not> isRunning s \<and> destination s = None"
    then have "s\<lparr>destination := None\<rparr> = s" by simp
    then show "handleCommand c now Stop s = s"
      using a by (simp add: handleCommand_def stop_stopped)
  qed
  have after: "isRunning s \<and> \<not> isRunning (updatePosition c now s) \<longrightarrow>
        handleCommand c now' Stop (updatePosition c now s) = updatePosition c now s"
  proof
    assume a: "isRunning s \<and> \<not> isRunning (updatePosition c now s)"
    then have "destination (updatePosition c now s) = None"
      using tick_stopped[of s c now] by simp
    then show "handleCommand c now' Stop (updatePosition c now s) = updatePosition c now s"
      using a by (intro idle) simp_all
  qed
  have reach: "(destination s \<noteq> None \<longrightarrow> isRunning s) \<and> \<not> isRunning (run c acts s) \<longrightarrow>
        handleCommand c now' Stop (run c acts s) = run c acts s"
  proof
    assume a: "(destination s \<noteq> None \<longrightarrow> isRunning s) \<and> \<not> isRunning (run c acts s)"
    then have "destination (run c acts s) = None"
      using run_dest[of s c acts] by blast
    then show "handleCommand c now' Stop (run c acts s) = run c acts s"
      using a by (intro idle) simp_all
  qed
  show ?thesis
    using f st tk again noop after reach by (simp add: stop_stopped)
qed

theorem stop_command_witness:
  "isRunning low_fuel_transit
   \<and> destination (handleCommand default_config 70 Stop low_fuel_transit) = None
   \<and> isRunning (handleCommand default_config 70 Stop low_fuel_transit) = False
   \<and> hGet (redis (handleCommand default_config 70 Stop low_fuel_transit)) ''isMoving'' =
        Some (Json (VBool False))
   \<and> currentPosition (ticks default_config [100, 150, 200]
        (handleCommand default_config 70 Stop low_fuel_transit)) = V3 0 0 0
   \<and> handleCommand default_config 90 Stop (handleCommand default_config 70 Stop low_fuel_transit) =
        handleCommand default_config 70 Stop low_fuel_transit
   \<and> \<not> isRunning fresh \<and> destination fresh = None
   \<and> handleCommand default_config 70 Stop fresh = fresh
   \<and> stopInterpolation default_config 70 fresh = fresh
   \<and> \<not> isRunning (updatePosition default_config 70 low_fuel_transit)
   \<and> handleCommand default_config 90 Stop (updatePosition default_config 70 low_fuel_transit) =
        updatePosition default_config 70 low_fuel_transit
   \<and> \<not> isRunning (run default_config [SetDestination (V3 100 0 0), Command Stop 60] fresh)
   \<and> handleCommand default_config 90 Stop
        (run default_config [SetDestination (V3 100 0 0), Command Stop 60] fresh) =
        run default_config [SetDestination (V3 100 0 0), Command Stop 60] fresh"
proof -
  have r: "isRunning low_fuel_transit" by (rule low_fuel_transit_facts)
  have i: "\<not> isRunning fresh \<and> destination fresh = None" by (simp add: fresh_def)
  have d: "\<not> isRunning (updatePosition default_config 70 low_fuel_transit)"
    using tick_depletion[of low_fuel_transit "V3 100 0 0" "1 / 100" default_config 70]
    by (simp add: low_fuel_transit_facts Let_def stop_fields)
  have a: "currentPosition (ticks default_config [100, 150, 200]
        (handleCommand default_config 70 Stop low_fuel_transit)) = V3 0 0 0"
  proof -
    have "currentPosition (ticks default_config [100, 150, 200]
        (handleCommand default_config 70 Stop low_fuel_transit)) = currentPosition low_fuel_transit"
      using stop_command[of default_config 70 low_fuel_transit "[100, 150, 200]" 90] by blast
    then show ?thesis by (simp add: low_fuel_transit_facts)
  qed
  have e: "\<not> isRunning (run default_config [SetDestination (V3 100 0 0), Command Stop 60] fresh)"
    by (simp add: run_def handleCommand_def stop_fields)
  show ?thesis
    using r i d a e
      stop_command[of default_config 70 low_fuel_transit "[100, 150, 200]" 90]
      stop_command[of default_config 70 fresh "[]" 90
        "[SetDestination (V3 100 0 0), Command Stop 60]"]
    by blast
qed

subsection \<open>Write merge and timestamp\<close>

text \<open>
  C8, as it holds of the code. A write through \<open>updateState\<close> returns true, sets the
  timestamp to the clock reading, leaves every field that is neither supplied nor the
  timestamp as it was, and stores each supplied field under its encoding; so across two
  such writes whose clock readings do not decrease the stored timestamp does not decrease.
\<close>

theorem updateState_write:
  "snd (updateState now ups s) = True
   \<and> timestampOf (fst (updateState now ups s)) = Num (real_of_int now)
   \<and> (\<forall>k. k \<notin> fst ` set ups \<and> k \<noteq> ''timestamp'' \<longrightarrow>
          hGet (redis (fst (updateState now ups s))) k = hGet (redis s) k)
   \<and> (\<forall>k v. map_of (rev ups) k = Some v \<and> k \<noteq> ''timestamp'' \<longrightarrow>
          hGet (redis (fst (updateState now ups s))) k = Some (encodeField k v))
   \<and> (now \<le> now' \<longrightarrow>
        (\<exists>t t'. timestampOf (fst (updateState now ups s)) = Num t
           \<and> timestampOf (fst (updateState now' ups' (fst (updateState now ups s)))) = Num t'
           \<and> t \<le> t'))"
proof -
  have ts: "\<And>n u x. timestampOf (fst (updateState n u x)) = Num (real_of_int n)"
    by (simp add: timestampOf_def hGet_updateState)
  have frame: "\<forall>k. k \<notin> fst ` set ups \<and> k \<noteq> ''timestamp'' \<longrightarrow>
          hGet (redis (fst (updateState now ups s))) k = hGet (redis s) k"
  proof (intro allI impI)
    fix k assume a: "k \<notin> fst ` set ups \<and> k \<noteq> ''timestamp''"
    then have "map_of (rev ups) k = None"
      by (simp add: map_of_eq_None_iff)
    with a show "hGet (redis (fst (updateState now ups s))) k = hGet (redis s) k"
      by (simp add: hGet_updateState)
  qed
  have written: "\<forall>k v. map_of (rev ups) k = Some v \<and> k \<noteq> ''timestamp'' \<longrightarrow>
          hGet (redis (fst (updateState now ups s))) k = Some (encodeField k v)"
    by (simp add: hGet_updateState)
  show ?thesis
    using frame written by (simp add: ts updateState_fields)
qed

theorem updateState_write_witness:
  "hGet (redis (fst (updateState 2000 [(''fuel'', VNum (Num 40)), (''destination'', VNull)] stamped)))
       ''fuel'' = Some (Json (VNum (Num 40)))
   \<and> hGet (redis (fst (updateState 2000 [(''fuel'', VNum (Num 40)), (''destination'', VNull)] stamped)))
       ''destination'' = Some (Json VNull)
   \<and> hGet (redis (fst (updateState 2000 [(''fuel'', VNum (Num 40)), (''destination'', VNull)] stamped)))
       ''position'' = None
   \<and> timestampOf stamped = Num 1000
   \<and> timestampOf (fst (updateState 2000 [(''fuel'', VNum (Num 40)), (''destination'', VNull)] stamped))
       = Num 2000
   \<and> timestampOf (fst (updateState 3000 [] (fst (updateState 2000 [(''fuel'', VNum (Num 40)), (''destination'', VNull)] stamped))))
       = Num 3000"
proof -
  let ?u = "[(''fuel'', VNum (Num 40)), (''destination'', VNull)]"
  note A = updateState_write[of 2000 ?u stamped 3000 "[]"]
  have 1: "hGet (redis (fst (updateState 2000 ?u stamped))) ''fuel'' = Some (encodeField ''fuel'' (VNum (Num 40)))"
    using A by simp
  have 2: "hGet (redis (fst (updateState 2000 ?u stamped))) ''destination'' = Some (encodeField ''destination'' VNull)"
    using A by simp
  have 3: "hGet (redis (fst (updateState 2000 ?u stamped))) ''position'' = hGet (redis stamped) ''position''"
    using A by simp
  have 4: "timestampOf (fst (updateState 2000 ?u stamped)) = Num 2000"
    using A by simp
  have 5: "timestampOf (fst (updateState 3000 [] (fst (updateState 2000 ?u stamped)))) = Num 3000"
    using updateState_write[of 3000 "[]" "fst (updateState 2000 ?u stamped)" 3000 "[]"] by simp
  show ?thesis
    using 1 2 3 4 5
    by (simp add: encodeField_def JSON_stringify_def stamped_def fresh_def hGet_def timestampOf_def)
qed

text \<open>
  The write made by \<open>setDestination\<close> changes the destination field and leaves a
  timestamp of 1000 at 1000; over an empty record it writes no timestamp at all.
\<close>

theorem updateState_write_counterexample:
  "hGet (redis stamped) ''destination'' = None
   \<and> hGet (redis (fst (setDestination (V3 100 0 0) stamped))) ''destination'' =
        Some (Json (VArr [VNum (Num 100), VNum (Num 0), VNum (Num 0)]))
   \<and> timestampOf stamped = Num 1000
   \<and> timestampOf (fst (setDestination (V3 100 0 0) stamped)) = Num 1000
   \<and> hGet (redis (fst (setDestination (V3 100 0 0) fresh))) ''timestamp'' = None"
  by (simp add: timestampOf_def setDestination_fields stamped_def fresh_def hGet_update vecArray_def)
     (simp add: hGet_def)

subsection \<open>Setting a destination without fuel\<close>

text \<open>
  C9. With a fuel level of 0 or less, \<open>setDestination\<close> still returns true, stores
  \<open>isMoving\<close> as true and starts the loop (the command it republishes changes nothing when
  it comes back). The next tick clears the destination and stops the loop; the position
  is the one before the call and no event at all has been published.
\<close>

theorem setDestination_without_fuel:
  assumes "js_le0 (getCurrentFuel s)"
  shows "snd (setDestination d s) = True
       \<and> isRunning (fst (setDestination d s)) = True
       \<and> destination (fst (setDestination d s)) = Some d
       \<and> hGet (redis (fst (setDestination d s))) ''isMoving'' = Some (Json (VBool True))
       \<and> handleCommand c now (MoveTo d) (fst (setDestination d s)) = fst (setDestination d s)
       \<and> destination (updatePosition c now (fst (setDestination d s))) = None
       \<and> isRunning (updatePosition c now (fst (setDestination d s))) = False
       \<and> intervalId (updatePosition c now (fst (setDestination d s))) = False
       \<and> currentPosition (updatePosition c now (fst (setDestination d s))) = currentPosition s
       \<and> events (updatePosition c now (fst (setDestination d s))) = events s"
proof -
  let ?s1 = "fst (setDestination d s)"
  have d: "destination ?s1 = Some d" and r: "isRunning ?s1"
    by (simp_all add: setDestination_fields)
  have f: "js_le0 (getCurrentFuel ?s1)"
    using assms by (simp add: setDestination_fields)
  have t: "updatePosition c now ?s1 = stopInterpolation c now (?s1\<lparr>destination := None\<rparr>)"
    by (rule tick_no_fuel[OF d r f])
  have echo: "handleCommand c now (MoveTo d) ?s1 = ?s1"
    using d r by (simp add: handleCommand_def)
  have run': "isRunning (?s1\<lparr>destination := None\<rparr>)"
    using r by simp
  show ?thesis
    using echo stop_running_store[OF run', of c now]
    by (simp add: t stop_fields setDestination_fields hGet_update)
qed

theorem setDestination_without_fuel_witness:
  "js_le0 (getCurrentFuel empty_tank)
   \<and> snd (setDestination (V3 100 0 0) empty_tank) = True
   \<and> isRunning (fst (setDestination (V3 100 0 0) empty_tank)) = True
   \<and> isRunning (updatePosition default_config 1000
        (fst (setDestination (V3 100 0 0) empty_tank))) = False
   \<and> destination (updatePosition default_config 1000
        (fst (setDestination (V3 100 0 0) empty_tank))) = None
   \<and> currentPosition (updatePosition default_config 1000
        (fst (setDestination (V3 100 0 0) empty_tank))) = V3 0 0 0
   \<and> events (updatePosition default_config 1000
        (fst (setDestination (V3 100 0 0) empty_tank))) = []"
proof -
  have h: "js_le0 (getCurrentFuel empty_tank)"
    by (simp add: empty_tank_def fresh_def getCurrentFuel_def hGet_def)
  show ?thesis
    using h setDestination_without_fuel[OF h, of "V3 100 0 0" default_config 1000]
    by (simp add: empty_tank_def fresh_def)
qed

subsection \<open>Events of a depletion tick\<close>

text \<open>
  C10. A depletion tick publishes exactly two events, in this order: \<open>FuelUpdate\<close> with
  fuel 0, written by the fuel update that empties the tank, and then \<open>FuelDepleted\<close> with
  the position reached.
\<close>

theorem depletion_events:
  assumes "destination s = Some dest" and "isRunning s"
    and "getCurrentFuel s = Num fuel" and "0 < fuel" and "fuel - fuelConsumed c \<le> 0"
  shows "events (updatePosition c now s) =
           events s @
           [FuelUpdate (Num 0),
            FuelDepleted
              (advance (currentPosition s) (heading s) (fuel / FUEL_CONSUMPTION_RATE c)) now]"
  using tick_depletion[OF assms, of now]
  by (simp add: Let_def stop_fields urp_fields updateFuel_def)

theorem depletion_events_witness:
  "events (updatePosition default_config 1000 low_fuel_transit) =
     [FuelUpdate (Num 0), FuelDepleted (V3 1 0 0) 1000]"
  using depletion_events[of low_fuel_transit "V3 100 0 0" "1 / 100" default_config 1000]
  by (simp add: low_fuel_transit_facts advance_def) (simp add: default_config_def)

end
